theory Spec2Isabelle
  imports Main
begin

section \<open>Python text primitives used by bot.py\<close>

text \<open>
  Text is modelled as \<^typ>\<open>string\<close>, one \<^typ>\<open>char\<close> per code point, so that the code
  points are those below 256. Whitespace (\<open>isspace_char\<close>) is Python's on that whole
  range. Letters, digits and the case mappings are Python's on the ASCII range only: from
  128 upwards \<open>isalpha_char\<close> and \<open>isdigit_char\<close> are false and \<open>upper\<close> and \<open>lower\<close> leave
  the character alone, where Python knows further letters, digits and case pairs. Every
  theorem below about text that reaches these classes therefore assumes ASCII input:
  through the shape rules \<open>letter_pair\<close>, \<open>digit_pair\<close> and \<open>digit_quad\<close>, or through
  \<open>ascii\<close>.
\<close>

definition ord_char :: "char \<Rightarrow> nat" where
  "ord_char c = of_char c"

definition isalpha_char :: "char \<Rightarrow> bool" where
  "isalpha_char c = ((65 \<le> ord_char c \<and> ord_char c \<le> 90) \<or> (97 \<le> ord_char c \<and> ord_char c \<le> 122))"

definition isdigit_char :: "char \<Rightarrow> bool" where
  "isdigit_char c = (48 \<le> ord_char c \<and> ord_char c \<le> 57)"

definition isspace_char :: "char \<Rightarrow> bool" where
  \<comment> \<open>\<open>c.isspace()\<close>: tab, LF, VT, FF, CR, the four separators FS GS RS US, the space,
      and beyond ASCII the next-line control U+0085 and the no-break space U+00A0\<close>
  "isspace_char c =
     ((9 \<le> ord_char c \<and> ord_char c \<le> 13) \<or> (28 \<le> ord_char c \<and> ord_char c \<le> 32)
      \<or> ord_char c = 133 \<or> ord_char c = 160)"

definition ascii :: "string \<Rightarrow> bool" where
  \<comment> \<open>text of code points below 128\<close>
  "ascii s = list_all (\<lambda>c. ord_char c < 128) s"

definition upper_char :: "char \<Rightarrow> char" where
  "upper_char c = (if 97 \<le> ord_char c \<and> ord_char c \<le> 122 then char_of (ord_char c - 32) else c)"

definition isalpha :: "string \<Rightarrow> bool" where
  \<comment> \<open>\<open>s.isalpha()\<close>: false on the empty string\<close>
  "isalpha s = (s \<noteq> [] \<and> list_all isalpha_char s)"

definition isdigit :: "string \<Rightarrow> bool" where
  "isdigit s = (s \<noteq> [] \<and> list_all isdigit_char s)"

definition upper :: "string \<Rightarrow> string" where
  "upper s = map upper_char s"

definition strip :: "string \<Rightarrow> string" where
  \<comment> \<open>\<open>s.strip()\<close>: leading and trailing whitespace removed\<close>
  "strip s = rev (dropWhile isspace_char (rev (dropWhile isspace_char s)))"

subsection \<open>Decimal numerals\<close>

definition digit_value :: "char \<Rightarrow> int" where
  "digit_value c = int (ord_char c) - 48"

definition digits_value :: "string \<Rightarrow> int" where
  "digits_value s = foldl (\<lambda>acc c. 10 * acc + digit_value c) 0 s"

definition digit_char :: "nat \<Rightarrow> char" where
  "digit_char d = char_of (48 + d)"

fun digits_of :: "nat \<Rightarrow> string" where
  "digits_of n = (if n < 10 then [digit_char n] else digits_of (n div 10) @ [digit_char (n mod 10)])"

declare digits_of.simps [simp del]

definition zfill :: "nat \<Rightarrow> string \<Rightarrow> string" where
  "zfill w s = replicate (w - length s) (CHR ''0'') @ s"

definition format_04d :: "int \<Rightarrow> string" where
  \<comment> \<open>the format spec \<open>{num:04d}\<close>: a sign counts towards the width of four\<close>
  "format_04d num =
     (if num < 0 then CHR ''-'' # zfill 3 (digits_of (nat (- num)))
      else zfill 4 (digits_of (nat num)))"

definition py_range :: "int \<Rightarrow> int \<Rightarrow> int list" where
  \<comment> \<open>\<open>range(a, b)\<close>\<close>
  "py_range a b = [a..b - 1]"

section \<open>Files\<close>

text \<open>
  The working directory is a map from file names to file contents. Opening a file for
  writing creates or truncates it; \<open>os.remove\<close> raises when the file is missing.
\<close>

type_synonym fs = "string \<rightharpoonup> string"

definition newline :: char where
  "newline = CHR 0x0A"

definition write_lines :: "string list \<Rightarrow> string" where
  \<comment> \<open>\<open>for number in numbers: f.write(number + '\n')\<close>\<close>
  "write_lines numbers = foldl (\<lambda>out number. out @ number @ [newline]) [] numbers"

section \<open>Vehicle number generation\<close>

text \<open>
  Both generators return the pair \<open>(filename, error)\<close> with exactly one component set.
  The model returns \<open>Inr filename\<close> or \<open>Inl error\<close>, one constructor per message:
  \<^item> \<open>FirstPartError\<close>: "First part must be exactly 2 letters"
  \<^item> \<open>SecondPartError\<close>: "Second part must be exactly 2 digits"
  \<^item> \<open>ThirdPartError\<close>: "Third part (series) must be exactly 2 letters"
  \<^item> \<open>StartDigitsError\<close>: "Start digits must be exactly 4 digits"
  \<^item> \<open>EndDigitsError\<close>: "End digits must be exactly 4 digits"
  \<^item> \<open>RangeError\<close>: "Start digits must be less than or equal to end digits"
  \<^item> \<open>NoSeriesError\<close>: "No series provided"
  \<^item> \<open>InvalidSeriesError s\<close>: "Invalid series: s. Each series must be exactly 2 letters"
\<close>

datatype gen_error =
    FirstPartError
  | SecondPartError
  | ThirdPartError
  | StartDigitsError
  | EndDigitsError
  | RangeError
  | NoSeriesError
  | InvalidSeriesError string

definition number_str :: "string \<Rightarrow> string \<Rightarrow> string \<Rightarrow> int \<Rightarrow> string" where
  "number_str first_letters second_numbers third_letters num =
     upper first_letters @ second_numbers @ upper third_letters @ format_04d num"

definition series_numbers ::
  "string \<Rightarrow> string \<Rightarrow> string \<Rightarrow> int \<Rightarrow> int \<Rightarrow> string list \<Rightarrow> string list" where
  \<comment> \<open>the loop \<open>for num in range(start_num, end_num + 1): numbers.append(number_str)\<close>\<close>
  "series_numbers first_letters second_numbers third_letters start_num end_num numbers =
     foldl (\<lambda>acc num. acc @ [number_str first_letters second_numbers third_letters num])
       numbers (py_range start_num (end_num + 1))"

definition generate_vehicle_numbers ::
  "string \<Rightarrow> string \<Rightarrow> string \<Rightarrow> string \<Rightarrow> string \<Rightarrow> fs \<Rightarrow> (gen_error + string) \<times> fs" where
  "generate_vehicle_numbers first_letters second_numbers third_letters start_digits end_digits files =
     (if length first_letters \<noteq> 2 \<or> \<not> isalpha first_letters then (Inl FirstPartError, files)
      else if length second_numbers \<noteq> 2 \<or> \<not> isdigit second_numbers then (Inl SecondPartError, files)
      else if length third_letters \<noteq> 2 \<or> \<not> isalpha third_letters then (Inl ThirdPartError, files)
      else if length start_digits \<noteq> 4 \<or> \<not> isdigit start_digits then (Inl StartDigitsError, files)
      else if length end_digits \<noteq> 4 \<or> \<not> isdigit end_digits then (Inl EndDigitsError, files)
      else
        let start_num = digits_value start_digits;
            end_num = digits_value end_digits
        in if start_num > end_num then (Inl RangeError, files)
           else
             let numbers = series_numbers first_letters second_numbers third_letters
                             start_num end_num [];
                 filename = ''vehicle_numbers_'' @ upper first_letters @ second_numbers
                              @ upper third_letters @ ''.txt''
             in (Inr filename, files(filename \<mapsto> write_lines numbers)))"

fun batch_loop ::
  "string \<Rightarrow> string \<Rightarrow> int \<Rightarrow> int \<Rightarrow> string list \<Rightarrow> string list \<Rightarrow> gen_error + string list" where
  "batch_loop first_letters second_numbers start_num end_num [] all_numbers = Inr all_numbers"
| "batch_loop first_letters second_numbers start_num end_num (series # rest) all_numbers =
     (let series' = upper (strip series)
      in if length series' \<noteq> 2 \<or> \<not> isalpha series' then Inl (InvalidSeriesError series')
         else batch_loop first_letters second_numbers start_num end_num rest
                (foldl (\<lambda>acc num. acc @ [upper first_letters @ second_numbers @ series' @ format_04d num])
                   all_numbers (py_range start_num (end_num + 1))))"

definition generate_batch_vehicle_numbers ::
  "string \<Rightarrow> string \<Rightarrow> string list \<Rightarrow> string \<Rightarrow> string \<Rightarrow> fs \<Rightarrow> (gen_error + string) \<times> fs" where
  "generate_batch_vehicle_numbers first_letters second_numbers series_list start_digits end_digits files =
     (if length first_letters \<noteq> 2 \<or> \<not> isalpha first_letters then (Inl FirstPartError, files)
      else if length second_numbers \<noteq> 2 \<or> \<not> isdigit second_numbers then (Inl SecondPartError, files)
      else if length start_digits \<noteq> 4 \<or> \<not> isdigit start_digits then (Inl StartDigitsError, files)
      else if length end_digits \<noteq> 4 \<or> \<not> isdigit end_digits then (Inl EndDigitsError, files)
      else if series_list = [] then (Inl NoSeriesError, files)
      else
        let start_num = digits_value start_digits;
            end_num = digits_value end_digits
        in if start_num > end_num then (Inl RangeError, files)
           else
             (case batch_loop first_letters second_numbers start_num end_num series_list [] of
                Inl e \<Rightarrow> (Inl e, files)
              | Inr all_numbers \<Rightarrow>
                  let filename = ''vehicle_numbers_batch_'' @ upper first_letters @ second_numbers
                                   @ ''.txt''
                  in (Inr filename, files(filename \<mapsto> write_lines all_numbers))))"

text \<open>The Validator's shape rules of the specification: ASCII letters and decimal digits.\<close>

definition letter_pair :: "string \<Rightarrow> bool" where
  "letter_pair s = (length s = 2 \<and> list_all isalpha_char s)"

definition digit_pair :: "string \<Rightarrow> bool" where
  "digit_pair s = (length s = 2 \<and> list_all isdigit_char s)"

definition digit_quad :: "string \<Rightarrow> bool" where
  "digit_quad s = (length s = 4 \<and> list_all isdigit_char s)"

section \<open>Text to CSV conversion\<close>

subsection \<open>Substring search and split\<close>

fun find_sep :: "string \<Rightarrow> string \<Rightarrow> (string \<times> string) option" where
  \<comment> \<open>the text before and after the first occurrence of \<open>sep\<close>, if there is one\<close>
  "find_sep sep [] = (if sep = [] then Some ([], []) else None)"
| "find_sep sep (c # cs) =
     (if take (length sep) (c # cs) = sep then Some ([], drop (length sep) (c # cs))
      else (case find_sep sep cs of None \<Rightarrow> None | Some (before, after) \<Rightarrow> Some (c # before, after)))"

definition contains :: "string \<Rightarrow> string \<Rightarrow> bool" where
  \<comment> \<open>\<open>sep in s\<close>\<close>
  "contains sep s = (find_sep sep s \<noteq> None)"

fun py_split :: "string \<Rightarrow> nat \<Rightarrow> string \<Rightarrow> string list" where
  \<comment> \<open>\<open>s.split(sep, maxsplit)\<close> for a non-empty \<open>sep\<close>\<close>
  "py_split sep 0 s = [s]"
| "py_split sep (Suc maxsplit) s =
     (case find_sep sep s of
        None \<Rightarrow> [s]
      | Some (before, after) \<Rightarrow> before # py_split sep maxsplit after)"

subsection \<open>Reading lines and writing rows\<close>

definition carriage_return :: char where
  "carriage_return = CHR 0x0D"

fun readlines_from :: "string \<Rightarrow> string \<Rightarrow> string list" where
  \<comment> \<open>\<open>f.readlines()\<close> of a file opened in text mode: every line keeps its end, and the
      line ends CR LF and CR are read as LF (universal newlines)\<close>
  "readlines_from current [] = (if current = [] then [] else [current])"
| "readlines_from current (c # cs) =
     (if c = newline then (current @ [newline]) # readlines_from [] cs
      else if c = carriage_return then
        (case cs of
           [] \<Rightarrow> [current @ [newline]]
         | d # ds \<Rightarrow>
             if d = newline then (current @ [newline]) # readlines_from [] ds
             else (current @ [newline]) # readlines_from [] (d # ds))
      else readlines_from (current @ [c]) cs)"

definition readlines :: "string \<Rightarrow> string list" where
  "readlines content = readlines_from [] content"

definition needs_quotes :: "string \<Rightarrow> bool" where
  \<comment> \<open>\<open>csv.QUOTE_MINIMAL\<close>: a field holding the delimiter, the quote character or a
      character of the line terminator is quoted\<close>
  "needs_quotes field =
     list_ex (\<lambda>c. c = CHR '','' \<or> c = CHR 0x22 \<or> c = carriage_return \<or> c = newline) field"

definition csv_field :: "string \<Rightarrow> string" where
  "csv_field field =
     (if needs_quotes field
      then [CHR 0x22] @ concat (map (\<lambda>c. if c = CHR 0x22 then [CHR 0x22, CHR 0x22] else [c]) field)
             @ [CHR 0x22]
      else field)"

definition writerow :: "string \<Rightarrow> string \<Rightarrow> string" where
  \<comment> \<open>\<open>writer.writerow([a, b])\<close> of \<open>csv.writer(csv_file, delimiter=',')\<close>: the two fields,
      a comma between them, the line terminator CR LF\<close>
  "writerow a b = csv_field a @ '','' @ csv_field b @ [carriage_return, newline]"

text \<open>
  The converter returns \<open>(True, None)\<close> or \<open>(False, message)\<close>: \<open>Inr ()\<close> or \<open>Inl\<close> of
  \<^item> \<open>EmptyInputError\<close>: "The TXT file is empty"
  \<^item> \<open>NoValidRecordsError\<close>: "No valid data found. Expected format: VEHICLE_NUMBER - PHONE_NUMBER"
  \<^item> \<open>ReadError\<close>: \<open>str(e)\<close> of the exception raised by opening a missing source file.
\<close>

datatype convert_error = EmptyInputError | NoValidRecordsError | ReadError

definition separator :: string where
  "separator = '' - ''"

fun process_lines :: "string list \<Rightarrow> string \<times> nat \<Rightarrow> string \<times> nat" where
  \<comment> \<open>the loop over \<open>lines\<close>; the state is the text written so far and \<open>processed_count\<close>\<close>
  "process_lines [] (written, processed_count) = (written, processed_count)"
| "process_lines (line # rest) (written, processed_count) =
     (let line' = strip line
      in if line' = [] then process_lines rest (written, processed_count)
         else if contains separator line' then
           (let parts = py_split separator 2 line'
            in if length parts \<ge> 2 then
                 (let vehicle_number = strip (parts ! 0);
                      phone_number = strip (parts ! 1)
                  in if vehicle_number \<noteq> [] \<and> phone_number \<noteq> []
                     then process_lines rest
                            (written @ writerow phone_number vehicle_number, processed_count + 1)
                     else process_lines rest (written, processed_count))
               else process_lines rest (written, processed_count))
         else process_lines rest (written, processed_count))"

definition convert_txt_to_csv :: "string \<Rightarrow> string \<Rightarrow> fs \<Rightarrow> (convert_error + unit) \<times> fs" where
  "convert_txt_to_csv txt_file_path csv_file_path files =
     (case files txt_file_path of
        None \<Rightarrow> (Inl ReadError, files)
      | Some content \<Rightarrow>
          let lines = readlines content
          in if lines = [] then (Inl EmptyInputError, files)
             else
               let (written, processed_count) =
                     process_lines lines (writerow ''Number'' ''Vehicle Number'', 0)
               in if processed_count = 0
                  then (Inl NoValidRecordsError, files(csv_file_path \<mapsto> written))
                  else (Inr (), files(csv_file_path \<mapsto> written)))"

section \<open>Session state, transport and storage\<close>

text \<open>
  \<open>context.user_data\<close> is a dictionary from keys to Python values. The float stored under
  \<open>file_size_mb\<close> (a byte count divided by \<open>1024 * 1024\<close>, only ever shown in a caption)
  is kept as the byte count it is computed from.
\<close>

datatype pyval = Str string | StrList "string list" | IntVal int | SizeMB nat

type_synonym user_data = "string \<rightharpoonup> pyval"

definition truthy :: "pyval option \<Rightarrow> bool" where
  \<comment> \<open>Python's truth value of \<open>user_data.get(key)\<close>\<close>
  "truthy v =
     (case v of
        None \<Rightarrow> False
      | Some (Str s) \<Rightarrow> s \<noteq> []
      | Some (StrList l) \<Rightarrow> l \<noteq> []
      | Some (IntVal i) \<Rightarrow> i \<noteq> 0
      | Some (SizeMB n) \<Rightarrow> n \<noteq> 0)"

text \<open>
  Exceptions. \<open>TimedOut\<close> and \<open>NetworkError\<close> are the two classes the bot's retry loops
  catch; \<open>OtherError\<close> stands for any other exception a transport call raises.
\<close>

datatype exn = TimedOut | NetworkError | FileNotFoundError | TypeError | ValueError | OtherError

definition transient :: "exn \<Rightarrow> bool" where
  \<comment> \<open>\<open>except (TimedOut, NetworkError)\<close>\<close>
  "transient e = (e = TimedOut \<or> e = NetworkError)"

datatype outcome = Ok | Raises exn

text \<open>The texts the bot sends, one constructor per message of the source.\<close>

datatype message =
    WelcomeSingle | WelcomeBatch | WelcomeTxt2csv | HelpText | OperationCancelled
  | ErrorOccurred
  | FileNotFoundStartOver | InvalidFilename
  | InvalidLetters | Step1Complete string
  | InvalidDigits | Step2Complete string
  | InvalidSeriesLetters | Step3Complete string
  | InvalidStartDigits | Step4Complete string
  | InvalidEndDigits | InvalidRange
  | Summary int
  | BatchInvalidLetters | BatchStep1Complete string
  | BatchInvalidDigits | BatchStep2Complete string
  | BatchInvalidSeries | BatchStep3Complete "string list"
  | BatchInvalidStartDigits | BatchStep4Complete string
  | BatchInvalidEndDigits | BatchInvalidRange
  | BatchSummary int
  | GenerationCancelled
  | Generating | GenerateError gen_error | FileTooLargeToSend nat | GenerationComplete nat
  | GeneratingBatch nat | BatchError gen_error | BatchTooLarge nat | BatchComplete nat nat
  | SendingDefault | RenamePrompt | CsvCancelled
  | NoFileDetected | InvalidFileType | Downloading | FileTooLarge | Converting
  | ConversionFailed convert_error | ConversionComplete int | ErrorProcessingFile exn
  | CsvTooLarge | ConversionSuccessful

datatype effect =
    ReplyText message
  | EditMessageText message
  | ReplyDocument string string
  | AnswerQuery
  | GetFile string
  | DownloadToDrive string

datatype event = Sent effect | Failed effect exn | Slept nat | Removed string

text \<open>
  The world a handler runs in: the session, the files, the record of what it did (every
  transport call with its outcome, every sleep, every file removed), and the outcomes
  the transport will give to the next calls: \<open>document_outcomes\<close> for \<open>reply_document\<close>,
  \<open>other_outcomes\<close> for every other call. A call made when its list is empty succeeds.
\<close>

record world =
  user_data :: user_data
  files :: fs
  log :: "event list"
  document_outcomes :: "outcome list"
  other_outcomes :: "outcome list"

text \<open>A handler returns \<open>None\<close> when it returns, \<open>Some e\<close> when \<open>e\<close> propagates out of it.\<close>

type_synonym result = "exn option \<times> world"

definition then_do :: "result \<Rightarrow> (world \<Rightarrow> result) \<Rightarrow> result" where
  "then_do r k = (case r of (None, w) \<Rightarrow> k w | (Some e, w) \<Rightarrow> (Some e, w))"

definition call_other :: "effect \<Rightarrow> world \<Rightarrow> result" where
  "call_other e w =
     (case other_outcomes w of
        [] \<Rightarrow> (None, w\<lparr>log := log w @ [Sent e]\<rparr>)
      | Ok # rest \<Rightarrow> (None, w\<lparr>log := log w @ [Sent e], other_outcomes := rest\<rparr>)
      | Raises x # rest \<Rightarrow> (Some x, w\<lparr>log := log w @ [Failed e x], other_outcomes := rest\<rparr>))"

definition reply_text :: "message \<Rightarrow> world \<Rightarrow> result" where
  "reply_text m w = call_other (ReplyText m) w"

definition edit_message_text :: "message \<Rightarrow> world \<Rightarrow> result" where
  "edit_message_text m w = call_other (EditMessageText m) w"

definition reply_document :: "string \<Rightarrow> string \<Rightarrow> world \<Rightarrow> result" where
  \<comment> \<open>\<open>with open(path, 'rb') as f: await reply_document(document=f, filename=filename, ...)\<close>\<close>
  "reply_document path filename w =
     (if files w path = None then (Some FileNotFoundError, w)
      else
        (case document_outcomes w of
           [] \<Rightarrow> (None, w\<lparr>log := log w @ [Sent (ReplyDocument path filename)]\<rparr>)
         | Ok # rest \<Rightarrow>
             (None, w\<lparr>log := log w @ [Sent (ReplyDocument path filename)],
                       document_outcomes := rest\<rparr>)
         | Raises x # rest \<Rightarrow>
             (Some x, w\<lparr>log := log w @ [Failed (ReplyDocument path filename) x],
                         document_outcomes := rest\<rparr>)))"

definition sleep :: "nat \<Rightarrow> world \<Rightarrow> world" where
  "sleep seconds w = w\<lparr>log := log w @ [Slept seconds]\<rparr>"

definition os_remove :: "string \<Rightarrow> world \<Rightarrow> result" where
  "os_remove path w =
     (if files w path = None then (Some FileNotFoundError, w)
      else (None, w\<lparr>files := (files w)(path := None), log := log w @ [Removed path]\<rparr>))"

definition try_remove :: "string \<Rightarrow> world \<Rightarrow> world" where
  \<comment> \<open>\<open>try: os.remove(path) except: pass\<close>\<close>
  "try_remove path w = snd (os_remove path w)"

definition clear :: "world \<Rightarrow> world" where
  \<comment> \<open>\<open>context.user_data.clear()\<close>\<close>
  "clear w = w\<lparr>user_data := Map.empty\<rparr>"

definition store :: "string \<Rightarrow> pyval \<Rightarrow> world \<Rightarrow> world" where
  \<comment> \<open>\<open>user_data[key] = value\<close>\<close>
  "store key v w = w\<lparr>user_data := (user_data w)(key \<mapsto> v)\<rparr>"

section \<open>Command handlers\<close>

definition start_command :: "world \<Rightarrow> result" where
  "start_command w =
     reply_text WelcomeSingle
       (store ''step'' (Str ''first_letters'') (store ''mode'' (Str ''single'') (clear w)))"

definition batch_command :: "world \<Rightarrow> result" where
  "batch_command w =
     reply_text WelcomeBatch
       (store ''step'' (Str ''first_letters'') (store ''mode'' (Str ''batch'') (clear w)))"

definition txt2csv_command :: "world \<Rightarrow> result" where
  "txt2csv_command w =
     reply_text WelcomeTxt2csv
       (store ''step'' (Str ''waiting_file'') (store ''mode'' (Str ''txt2csv'') (clear w)))"

definition help_command :: "world \<Rightarrow> result" where
  "help_command w = reply_text HelpText w"

definition cancel_command :: "world \<Rightarrow> result" where
  "cancel_command w = reply_text OperationCancelled (clear w)"

section \<open>Message handlers\<close>

fun safe_reply_loop :: "message \<Rightarrow> nat \<Rightarrow> nat list \<Rightarrow> world \<Rightarrow> bool \<times> world" where
  "safe_reply_loop m max_retries [] w = (False, w)"
| "safe_reply_loop m max_retries (attempt # rest) w =
     (case reply_text m w of
        (None, w') \<Rightarrow> (True, w')
      | (Some e, w') \<Rightarrow>
          if transient e then
            (if attempt < max_retries - 1 then safe_reply_loop m max_retries rest (sleep 1 w')
             else (False, w'))
          else (False, w'))"

definition safe_reply :: "message \<Rightarrow> nat \<Rightarrow> world \<Rightarrow> bool \<times> world" where
  "safe_reply m max_retries w = safe_reply_loop m max_retries [0..<max_retries] w"

definition safe_reply_default :: "message \<Rightarrow> world \<Rightarrow> result" where
  \<comment> \<open>\<open>await safe_reply(update, message)\<close> with \<open>max_retries=2\<close>, its result dropped\<close>
  "safe_reply_default m w = (None, snd (safe_reply m 2 w))"

subsection \<open>More text primitives\<close>

definition lower_char :: "char \<Rightarrow> char" where
  "lower_char c = (if 65 \<le> ord_char c \<and> ord_char c \<le> 90 then char_of (ord_char c + 32) else c)"

definition lower :: "string \<Rightarrow> string" where
  "lower s = map lower_char s"

definition endswith :: "string \<Rightarrow> string \<Rightarrow> bool" where
  "endswith s suffix = (length suffix \<le> length s \<and> drop (length s - length suffix) s = suffix)"

fun split_char :: "char \<Rightarrow> string \<Rightarrow> string \<Rightarrow> string list" where
  \<comment> \<open>\<open>s.split(c)\<close> for a single character \<open>c\<close>; \<open>current\<close> is the piece being read\<close>
  "split_char c current [] = [current]"
| "split_char c current (x # xs) =
     (if x = c then current # split_char c [] xs else split_char c (current @ [x]) xs)"

fun split_whitespace :: "string \<Rightarrow> string \<Rightarrow> string list" where
  \<comment> \<open>\<open>s.split()\<close>: runs of whitespace separate, no empty piece is returned\<close>
  "split_whitespace current [] = (if current = [] then [] else [current])"
| "split_whitespace current (x # xs) =
     (if isspace_char x
      then (if current = [] then split_whitespace [] xs else current # split_whitespace [] xs)
      else split_whitespace (current @ [x]) xs)"

fun replace_txt_by_csv :: "string \<Rightarrow> string" where
  \<comment> \<open>\<open>s.replace('.txt', '.csv')\<close>: every occurrence, from the left\<close>
  "replace_txt_by_csv (a # b # c # d # rest) =
     (if [a, b, c, d] = ''.txt'' then ''.csv'' @ replace_txt_by_csv rest
      else a # replace_txt_by_csv (b # c # d # rest))"
| "replace_txt_by_csv s = s"

definition py_int :: "pyval option \<Rightarrow> exn + int" where
  \<comment> \<open>\<open>int(user_data.get(key))\<close>. The strings the handlers store under the keys read this
      way are digit strings; the other spellings \<open>int()\<close> accepts (sign, blanks,
      underscores) are not modelled\<close>
  "py_int v =
     (case v of
        Some (Str s) \<Rightarrow> if isdigit s then Inr (digits_value s) else Inl ValueError
      | Some (IntVal i) \<Rightarrow> Inr i
      | Some (SizeMB n) \<Rightarrow> Inr (int (n div 1048576))
      | _ \<Rightarrow> Inl TypeError)"

definition series_of :: "pyval option \<Rightarrow> exn + string list" where
  \<comment> \<open>\<open>user_data.get('series_list', [])\<close> used as a sequence of strings\<close>
  "series_of v =
     (case v of
        None \<Rightarrow> Inr []
      | Some (StrList l) \<Rightarrow> Inr l
      | Some (Str s) \<Rightarrow> Inr (map (\<lambda>c. [c]) s)
      | _ \<Rightarrow> Inl TypeError)"

definition get_str :: "pyval option \<Rightarrow> exn + string" where
  \<comment> \<open>a value used as a string: \<open>len(None)\<close> and \<open>open(None)\<close> raise \<open>TypeError\<close>\<close>
  "get_str v = (case v of Some (Str s) \<Rightarrow> Inr s | _ \<Rightarrow> Inl TypeError)"

subsection \<open>Steps of the single generation\<close>

definition handle_single_generation :: "string \<Rightarrow> pyval option \<Rightarrow> world \<Rightarrow> result" where
  "handle_single_generation text step w =
     (if step = Some (Str ''first_letters'') then
        (let text' = upper text
         in if length text' \<noteq> 2 \<or> \<not> isalpha text' then safe_reply_default InvalidLetters w
            else safe_reply_default (Step1Complete text')
                   (store ''step'' (Str ''second_numbers'') (store ''first_letters'' (Str text') w)))
      else if step = Some (Str ''second_numbers'') then
        (if length text \<noteq> 2 \<or> \<not> isdigit text then reply_text InvalidDigits w
         else reply_text (Step2Complete text)
                (store ''step'' (Str ''third_letters'') (store ''second_numbers'' (Str text) w)))
      else if step = Some (Str ''third_letters'') then
        (let text' = upper text
         in if length text' \<noteq> 2 \<or> \<not> isalpha text' then reply_text InvalidSeriesLetters w
            else reply_text (Step3Complete text')
                   (store ''step'' (Str ''start_digits'') (store ''third_letters'' (Str text') w)))
      else if step = Some (Str ''start_digits'') then
        (if length text \<noteq> 4 \<or> \<not> isdigit text then reply_text InvalidStartDigits w
         else reply_text (Step4Complete text)
                (store ''step'' (Str ''end_digits'') (store ''start_digits'' (Str text) w)))
      else if step = Some (Str ''end_digits'') then
        (if length text \<noteq> 4 \<or> \<not> isdigit text then reply_text InvalidEndDigits w
         else
           (case py_int (user_data w ''start_digits'') of
              Inl e \<Rightarrow> (Some e, w)
            | Inr start_num \<Rightarrow>
                (case py_int (Some (Str text)) of
                   Inl e \<Rightarrow> (Some e, w)
                 | Inr end_num \<Rightarrow>
                     if start_num > end_num then reply_text InvalidRange w
                     else then_do (reply_text (Summary (end_num - start_num + 1)) w)
                            (\<lambda>w. (None, store ''end_digits'' (Str text)
                                           (store ''step'' (Str ''confirm'') w))))))
      else (None, w))"

subsection \<open>Steps of the batch generation\<close>

fun collect_valid_series :: "string list \<Rightarrow> string list \<Rightarrow> string list" where
  \<comment> \<open>the loop filling \<open>valid_series\<close>\<close>
  "collect_valid_series [] valid_series = valid_series"
| "collect_valid_series (series # rest) valid_series =
     (let series' = strip series
      in if length series' = 2 \<and> isalpha series'
         then collect_valid_series rest (valid_series @ [series'])
         else collect_valid_series rest valid_series)"

definition parse_series_list :: "string \<Rightarrow> string list" where
  \<comment> \<open>the \<open>series_list\<close> step up to the emptiness test: the list \<open>valid_series\<close>\<close>
  "parse_series_list text =
     (let text' = upper text;
          series_list = (if CHR '','' \<in> set text' then map strip (split_char (CHR '','') [] text')
                         else split_whitespace [] text')
      in collect_valid_series series_list [])"

definition handle_batch_generation :: "string \<Rightarrow> pyval option \<Rightarrow> world \<Rightarrow> result" where
  "handle_batch_generation text step w =
     (if step = Some (Str ''first_letters'') then
        (let text' = upper text
         in if length text' \<noteq> 2 \<or> \<not> isalpha text' then reply_text BatchInvalidLetters w
            else reply_text (BatchStep1Complete text')
                   (store ''step'' (Str ''second_numbers'') (store ''first_letters'' (Str text') w)))
      else if step = Some (Str ''second_numbers'') then
        (if length text \<noteq> 2 \<or> \<not> isdigit text then reply_text BatchInvalidDigits w
         else reply_text (BatchStep2Complete text)
                (store ''step'' (Str ''series_list'') (store ''second_numbers'' (Str text) w)))
      else if step = Some (Str ''series_list'') then
        (let valid_series = parse_series_list text
         in if valid_series = [] then reply_text BatchInvalidSeries w
            else reply_text (BatchStep3Complete valid_series)
                   (store ''step'' (Str ''start_digits'')
                      (store ''series_list'' (StrList valid_series) w)))
      else if step = Some (Str ''start_digits'') then
        (if length text \<noteq> 4 \<or> \<not> isdigit text then reply_text BatchInvalidStartDigits w
         else reply_text (BatchStep4Complete text)
                (store ''step'' (Str ''end_digits'') (store ''start_digits'' (Str text) w)))
      else if step = Some (Str ''end_digits'') then
        (if length text \<noteq> 4 \<or> \<not> isdigit text then reply_text BatchInvalidEndDigits w
         else
           (case py_int (user_data w ''start_digits'') of
              Inl e \<Rightarrow> (Some e, w)
            | Inr start_num \<Rightarrow>
                (case py_int (Some (Str text)) of
                   Inl e \<Rightarrow> (Some e, w)
                 | Inr end_num \<Rightarrow>
                     if start_num > end_num then reply_text BatchInvalidRange w
                     else
                       (case series_of (user_data w ''series_list'') of
                          Inl e \<Rightarrow> (Some e, w)
                        | Inr series_list \<Rightarrow>
                            then_do
                              (reply_text
                                 (BatchSummary ((end_num - start_num + 1) * int (length series_list))) w)
                              (\<lambda>w. (None, store ''end_digits'' (Str text)
                                             (store ''step'' (Str ''confirm'') w)))))))
      else (None, w))"

section \<open>Delivery of a file\<close>

text \<open>
  The three delivery loops of the source (\<open>generate\<close>, \<open>batch_generate\<close>, \<open>send_csv_file\<close>)
  have one shape: \<open>for attempt in range(max_retries)\<close>, send the document and \<open>break\<close>;
  on \<open>TimedOut\<close> or \<open>NetworkError\<close> sleep two seconds and \<open>continue\<close> while attempts are
  left, else run the give-up branch and \<open>return\<close>. Any other exception leaves the loop and
  the handler. They differ in the give-up branch, which is the parameter \<open>give_up\<close>.
\<close>

datatype loop_exit = Completed | Returned | Raised exn

fun send_document_loop ::
  "nat \<Rightarrow> nat list \<Rightarrow> string \<Rightarrow> string \<Rightarrow> (world \<Rightarrow> result) \<Rightarrow> world \<Rightarrow> loop_exit \<times> world" where
  "send_document_loop max_retries [] path filename give_up w = (Completed, w)"
| "send_document_loop max_retries (attempt # rest) path filename give_up w =
     (case reply_document path filename w of
        (None, w') \<Rightarrow> (Completed, w')
      | (Some e, w') \<Rightarrow>
          if transient e then
            (if attempt < max_retries - 1
             then send_document_loop max_retries rest path filename give_up (sleep 2 w')
             else (case give_up w' of
                     (None, w'') \<Rightarrow> (Returned, w'')
                   | (Some e', w'') \<Rightarrow> (Raised e', w'')))
          else (Raised e, w'))"

definition send_document ::
  "string \<Rightarrow> string \<Rightarrow> (world \<Rightarrow> result) \<Rightarrow> world \<Rightarrow> loop_exit \<times> world" where
  \<comment> \<open>\<open>max_retries = 3\<close>\<close>
  "send_document path filename give_up w =
     send_document_loop 3 [0..<3] path filename give_up w"

definition after_loop :: "loop_exit \<times> world \<Rightarrow> (world \<Rightarrow> result) \<Rightarrow> result" where
  \<comment> \<open>the code after the loop runs when the loop ended by \<open>break\<close>\<close>
  "after_loop r k =
     (case r of
        (Completed, w) \<Rightarrow> k w
      | (Returned, w) \<Rightarrow> (None, w)
      | (Raised e, w) \<Rightarrow> (Some e, w))"

definition count_lines :: "string \<Rightarrow> world \<Rightarrow> exn + nat" where
  \<comment> \<open>\<open>with open(filename, 'r') as f: count = len(f.readlines())\<close>\<close>
  "count_lines filename w =
     (case files w filename of
        None \<Rightarrow> Inl FileNotFoundError
      | Some content \<Rightarrow> Inr (length (readlines content)))"

definition deliver_generated :: "string \<Rightarrow> world \<Rightarrow> result" where
  \<comment> \<open>\<open>button_callback\<close>, branch \<open>generate\<close>, from the count of the lines to the end\<close>
  "deliver_generated filename w =
     (case count_lines filename w of
        Inl e \<Rightarrow> (Some e, w)
      | Inr count \<Rightarrow>
          after_loop
            (send_document filename filename
               (\<lambda>w. then_do (edit_message_text (FileTooLargeToSend count) w)
                       (\<lambda>w. (None, clear (try_remove filename w))))
               w)
            (\<lambda>w. then_do (reply_text (GenerationComplete count) (try_remove filename w))
                    (\<lambda>w. (None, clear w))))"

definition deliver_batch :: "string \<Rightarrow> nat \<Rightarrow> world \<Rightarrow> result" where
  \<comment> \<open>\<open>button_callback\<close>, branch \<open>batch_generate\<close>, from the count of the lines to the end\<close>
  "deliver_batch filename series_count w =
     (case count_lines filename w of
        Inl e \<Rightarrow> (Some e, w)
      | Inr count \<Rightarrow>
          after_loop
            (send_document filename filename
               (\<lambda>w. then_do (edit_message_text (BatchTooLarge count) w)
                       (\<lambda>w. (None, clear (try_remove filename w))))
               w)
            (\<lambda>w. then_do (reply_text (BatchComplete count series_count) (try_remove filename w))
                    (\<lambda>w. (None, clear w))))"

definition remove_if_exists :: "pyval option \<Rightarrow> world \<Rightarrow> result" where
  \<comment> \<open>\<open>if path and os.path.exists(path): os.remove(path)\<close>\<close>
  "remove_if_exists path w =
     (if \<not> truthy path then (None, w)
      else (case path of
              Some (Str p) \<Rightarrow> (if files w p = None then (None, w) else os_remove p w)
            | _ \<Rightarrow> (Some TypeError, w)))"

definition remove_both :: "pyval option \<Rightarrow> pyval option \<Rightarrow> world \<Rightarrow> world" where
  \<comment> \<open>\<open>try: <remove first if it exists>; <remove second if it exists> except: pass\<close>\<close>
  "remove_both first second w =
     snd (then_do (remove_if_exists first w) (remove_if_exists second))"

definition send_csv_file :: "string \<Rightarrow> string \<Rightarrow> pyval option \<Rightarrow> world \<Rightarrow> result" where
  \<comment> \<open>the text file first, then the CSV file, in both clean-ups\<close>
  "send_csv_file csv_file_path filename txt_file_path w =
     after_loop
       (send_document csv_file_path filename
          (\<lambda>w. then_do (reply_text CsvTooLarge w)
                  (\<lambda>w. (None, clear (remove_both txt_file_path (Some (Str csv_file_path)) w))))
          w)
       (\<lambda>w. then_do
               (reply_text ConversionSuccessful
                  (remove_both txt_file_path (Some (Str csv_file_path)) w))
               (\<lambda>w. (None, clear w)))"

section \<open>Renaming, the text dispatcher and the buttons\<close>

definition invalid_chars :: string where
  \<comment> \<open>less-than, greater-than, colon, double quote, slash, backslash, bar, question mark, star\<close>
  "invalid_chars = ''<>:'' @ [CHR 0x22] @ ''/'' @ [CHR 0x5C] @ ''|?*''"

definition clean_filename :: "string \<Rightarrow> string" where
  \<comment> \<open>\<open>for char in invalid_chars: new_filename = new_filename.replace(char, '_')\<close>, then the
      extension\<close>
  "clean_filename new_filename =
     (let replaced = foldl (\<lambda>name char. map (\<lambda>c. if c = char then CHR ''_'' else c) name)
                       new_filename invalid_chars
      in if \<not> endswith (lower replaced) ''.csv'' then replaced @ ''.csv'' else replaced)"

definition handle_csv_rename :: "string \<Rightarrow> world \<Rightarrow> result" where
  "handle_csv_rename new_filename w =
     (let csv_file_path = user_data w ''csv_file_path'';
          txt_file_path = user_data w ''txt_file_path''
      in if \<not> truthy csv_file_path
         then (None, clear (snd (safe_reply FileNotFoundStartOver 2 w)))
         else
           (let stripped = strip new_filename
            in if stripped = [] then safe_reply_default InvalidFilename w
               else (case get_str csv_file_path of
                       Inl e \<Rightarrow> (Some e, w)
                     | Inr path \<Rightarrow> send_csv_file path (clean_filename stripped) txt_file_path w)))"

definition attempt :: "result \<Rightarrow> (exn \<Rightarrow> world \<Rightarrow> result) \<Rightarrow> (world \<Rightarrow> result) \<Rightarrow> result" where
  \<comment> \<open>a step inside \<open>try: ... except Exception as e: ...\<close>\<close>
  "attempt r handler k = (case r of (None, w) \<Rightarrow> k w | (Some e, w) \<Rightarrow> handler e w)"

definition handle_message :: "string \<Rightarrow> world \<Rightarrow> result" where
  "handle_message text w =
     (if text = [] then (None, w)
      else
        attempt
          (let mode = user_data w ''mode'';
               step = user_data w ''step''
           in if \<not> truthy mode then (None, w)
              else
                (let text' = strip text
                 in if mode = Some (Str ''txt2csv'') \<and> step = Some (Str ''waiting_rename'')
                    then handle_csv_rename text' w
                    else if mode = Some (Str ''single'') then handle_single_generation text' step w
                    else if mode = Some (Str ''batch'') then handle_batch_generation text' step w
                    else (None, w)))
          (\<lambda>e w. safe_reply_default ErrorOccurred w)
          (\<lambda>w. (None, w)))"

definition default_name :: "pyval option \<Rightarrow> exn + string" where
  \<comment> \<open>\<open>user_data.get('default_filename', 'converted.csv')\<close> used as a file name\<close>
  "default_name v =
     (case v of None \<Rightarrow> Inr ''converted.csv'' | Some (Str s) \<Rightarrow> Inr s | _ \<Rightarrow> Inl TypeError)"

text \<open>
  In a session that reached the step \<open>confirm\<close> the collected values are strings. Where a
  value is missing (a button of an older message pressed after a restart), the generator
  raises \<open>TypeError\<close> at the first \<open>len(None)\<close>; every value the handlers store passes its
  check, so that is the first missing one.
\<close>

definition button_callback :: "string \<Rightarrow> world \<Rightarrow> result" where
  "button_callback data w0 =
     then_do (call_other AnswerQuery w0)
       (\<lambda>w.
          if data = ''cancel_gen''
          then then_do (edit_message_text GenerationCancelled w) (\<lambda>w. (None, clear w))
          else
            (let mode = user_data w ''mode''
             in if data = ''generate'' \<and> mode = Some (Str ''single'') then
                  then_do (edit_message_text Generating w)
                    (\<lambda>w.
                       (case (get_str (user_data w ''first_letters''),
                              get_str (user_data w ''second_numbers''),
                              get_str (user_data w ''third_letters''),
                              get_str (user_data w ''start_digits''),
                              get_str (user_data w ''end_digits'')) of
                          (Inr first_letters, Inr second_numbers, Inr third_letters,
                           Inr start_digits, Inr end_digits) \<Rightarrow>
                            (case generate_vehicle_numbers first_letters second_numbers
                                    third_letters start_digits end_digits (files w) of
                               (Inl error, files') \<Rightarrow>
                                 then_do (edit_message_text (GenerateError error) (w\<lparr>files := files'\<rparr>))
                                   (\<lambda>w. (None, clear w))
                             | (Inr filename, files') \<Rightarrow>
                                 deliver_generated filename (w\<lparr>files := files'\<rparr>))
                        | _ \<Rightarrow> (Some TypeError, w)))
                else if data = ''csv_use_default'' then
                  (let csv_file_path = user_data w ''csv_file_path'';
                       txt_file_path = user_data w ''txt_file_path''
                   in if truthy csv_file_path then
                        then_do (edit_message_text SendingDefault w)
                          (\<lambda>w.
                             (case (get_str csv_file_path,
                                    default_name (user_data w ''default_filename'')) of
                                (Inr path, Inr default_filename) \<Rightarrow>
                                  send_csv_file path default_filename txt_file_path w
                              | _ \<Rightarrow> (Some TypeError, w)))
                      else then_do (edit_message_text FileNotFoundStartOver w)
                             (\<lambda>w. (None, clear w)))
                else if data = ''csv_rename'' then
                  edit_message_text RenamePrompt (store ''step'' (Str ''waiting_rename'') w)
                else if data = ''csv_cancel'' then
                  then_do
                    (edit_message_text CsvCancelled
                       (remove_both (user_data w ''csv_file_path'') (user_data w ''txt_file_path'') w))
                    (\<lambda>w. (None, clear w))
                else if data = ''batch_generate'' \<and> mode = Some (Str ''batch'') then
                  (case series_of (user_data w ''series_list'') of
                     Inl e \<Rightarrow> (Some e, w)
                   | Inr series_list \<Rightarrow>
                       then_do (edit_message_text (GeneratingBatch (length series_list)) w)
                         (\<lambda>w.
                            (case (get_str (user_data w ''first_letters''),
                                   get_str (user_data w ''second_numbers''),
                                   get_str (user_data w ''start_digits''),
                                   get_str (user_data w ''end_digits'')) of
                               (Inr first_letters, Inr second_numbers, Inr start_digits,
                                Inr end_digits) \<Rightarrow>
                                 (case generate_batch_vehicle_numbers first_letters second_numbers
                                         series_list start_digits end_digits (files w) of
                                    (Inl error, files') \<Rightarrow>
                                      then_do
                                        (edit_message_text (BatchError error) (w\<lparr>files := files'\<rparr>))
                                        (\<lambda>w. (None, clear w))
                                  | (Inr filename, files') \<Rightarrow>
                                      deliver_batch filename (length series_list)
                                        (w\<lparr>files := files'\<rparr>))
                             | _ \<Rightarrow> (Some TypeError, w))))
                else (None, w)))"

section \<open>Document handler\<close>

record document =
  file_id :: string
  file_name :: "string option"
  file_content :: string

definition download_to_drive :: "document \<Rightarrow> string \<Rightarrow> world \<Rightarrow> result" where
  "download_to_drive doc path w =
     then_do (call_other (DownloadToDrive path) w)
       (\<lambda>w. (None, w\<lparr>files := (files w)(path \<mapsto> file_content doc)\<rparr>))"

definition getsize :: "string \<Rightarrow> world \<Rightarrow> exn + nat" where
  \<comment> \<open>\<open>os.path.getsize(path)\<close>: one byte per character of the content\<close>
  "getsize path w =
     (case files w path of None \<Rightarrow> Inl FileNotFoundError | Some c \<Rightarrow> Inr (length c))"

definition remove_bound :: "string option \<Rightarrow> world \<Rightarrow> result" where
  \<comment> \<open>\<open>if 'name' in locals(): os.remove(name)\<close>; the path is given when the variable is bound\<close>
  "remove_bound path w = (case path of None \<Rightarrow> (None, w) | Some p \<Rightarrow> os_remove p w)"

definition processing_failed :: "string option \<Rightarrow> string option \<Rightarrow> exn \<Rightarrow> world \<Rightarrow> result" where
  \<comment> \<open>the \<open>except Exception as e\<close> branch of \<open>handle_document\<close>\<close>
  "processing_failed txt_file_path csv_file_path e w =
     then_do (reply_text (ErrorProcessingFile e) w)
       (\<lambda>w. (None, clear (snd (then_do (remove_bound txt_file_path w)
                                    (remove_bound csv_file_path)))))"

definition process_upload :: "document \<Rightarrow> string \<Rightarrow> string \<Rightarrow> string \<Rightarrow> world \<Rightarrow> result" where
  \<comment> \<open>the \<open>try\<close> block of \<open>handle_document\<close>; \<open>name\<close> is \<open>file_name\<close>, the two paths are
      \<open>txt_file_path\<close> and \<open>csv_file_path\<close>, which the block binds on its way\<close>
  "process_upload doc name txt_file_path csv_file_path w0 =
     (let failed0 = processing_failed None None;
          failed1 = processing_failed (Some txt_file_path) None;
          failed2 = processing_failed (Some txt_file_path) (Some csv_file_path)
      in
      attempt (reply_text Downloading w0) failed0 (\<lambda>w.
      attempt (call_other (GetFile (file_id doc)) w) failed0 (\<lambda>w.
      attempt (download_to_drive doc txt_file_path w) failed1 (\<lambda>w.
        (case getsize txt_file_path w of
           Inl e \<Rightarrow> failed1 e w
         | Inr file_size \<Rightarrow>
             if file_size > 50 * 1024 * 1024 then
               attempt (os_remove txt_file_path w) failed1 (\<lambda>w.
               attempt (reply_text FileTooLarge w) failed1 (\<lambda>w. (None, w)))
             else
               attempt (reply_text Converting w) failed1 (\<lambda>w.
                 (case convert_txt_to_csv txt_file_path csv_file_path (files w) of
                    (Inl error, files') \<Rightarrow>
                      attempt (os_remove txt_file_path (w\<lparr>files := files'\<rparr>)) failed2 (\<lambda>w.
                      attempt (reply_text (ConversionFailed error) w) failed2
                        (\<lambda>w. (None, w)))
                  | (Inr u, files') \<Rightarrow>
                      (case getsize csv_file_path (w\<lparr>files := files'\<rparr>) of
                         Inl e \<Rightarrow> failed2 e (w\<lparr>files := files'\<rparr>)
                       | Inr csv_file_size \<Rightarrow>
                           (case count_lines csv_file_path (w\<lparr>files := files'\<rparr>) of
                              Inl e \<Rightarrow> failed2 e (w\<lparr>files := files'\<rparr>)
                            | Inr n \<Rightarrow>
                                (let line_count = int n - 1
                                 in attempt
                                      (reply_text (ConversionComplete line_count)
                                         (store ''step'' (Str ''ask_rename'')
                                         (store ''file_size_mb'' (SizeMB csv_file_size)
                                         (store ''line_count'' (IntVal line_count)
                                         (store ''default_filename''
                                            (Str (replace_txt_by_csv name))
                                         (store ''txt_file_path'' (Str txt_file_path)
                                         (store ''csv_file_path'' (Str csv_file_path)
                                            (w\<lparr>files := files'\<rparr>))))))))
                                      failed2 (\<lambda>w. (None, w))))))))))))"

definition handle_document :: "document option \<Rightarrow> world \<Rightarrow> result" where
  "handle_document update_document w =
     (if user_data w ''mode'' \<noteq> Some (Str ''txt2csv'')
         \<or> user_data w ''step'' \<noteq> Some (Str ''waiting_file'')
      then (None, w)
      else
        (case update_document of
           None \<Rightarrow> reply_text NoFileDetected w
         | Some doc \<Rightarrow>
             (let name = (case file_name doc of
                            None \<Rightarrow> ''document.txt''
                          | Some n \<Rightarrow> if n = [] then ''document.txt'' else n)
              in if \<not> endswith (lower name) ''.txt'' then reply_text InvalidFileType w
                 else process_upload doc name (''temp_'' @ file_id doc @ ''.txt'')
                        (''converted_'' @ file_id doc @ ''.csv'') w)))"

section \<open>The records of source lines and example inputs\<close>

text \<open>
  The record a source line stands for, as the converter computes it: the line is trimmed
  first; the primary field is the trimmed text before the first separator of the trimmed
  line, the secondary field the trimmed text between its first separator and its second
  (or its end); what follows a second separator is ignored. A line is retained when it is
  not blank, the trimmed line holds the separator and both fields are non-empty.
\<close>

definition primary :: "string \<Rightarrow> string" where
  "primary line =
     (case find_sep separator (strip line) of None \<Rightarrow> [] | Some (a, rest) \<Rightarrow> strip a)"

definition secondary :: "string \<Rightarrow> string" where
  "secondary line =
     (case find_sep separator (strip line) of
        None \<Rightarrow> []
      | Some (a, rest) \<Rightarrow>
          (case find_sep separator rest of None \<Rightarrow> strip rest | Some (b, ignored) \<Rightarrow> strip b))"

definition retained :: "string \<Rightarrow> bool" where
  "retained line =
     (strip line \<noteq> [] \<and> contains separator (strip line) \<and> primary line \<noteq> [] \<and> secondary line \<noteq> [])"




definition header_row :: string where
  "header_row = writerow ''Number'' ''Vehicle Number''"


definition series_step_session :: world where
  \<comment> \<open>a batch session waiting for the series list\<close>
  "series_step_session =
     \<lparr>user_data = [''mode'' \<mapsto> Str ''batch'', ''step'' \<mapsto> Str ''series_list'',
                    ''first_letters'' \<mapsto> Str ''AB'', ''second_numbers'' \<mapsto> Str ''12''],
      files = Map.empty, log = [], document_outcomes = [], other_outcomes = []\<rparr>"

section \<open>Properties of the numerals and of the generator loops\<close>

lemma ord_char_of: "n < 256 \<Longrightarrow> ord_char (char_of n) = n"
  by (simp add: ord_char_def)

lemma ord_digit_char: "d < 10 \<Longrightarrow> ord_char (digit_char d) = 48 + d"
  by (simp add: digit_char_def ord_char_def)

lemma isdigit_digit_char: "d < 10 \<Longrightarrow> isdigit_char (digit_char d)"
  by (simp add: isdigit_char_def ord_digit_char)

lemma digit_value_digit_char: "d < 10 \<Longrightarrow> digit_value (digit_char d) = int d"
  by (simp add: digit_value_def ord_digit_char)

lemma digits_value_snoc: "digits_value (xs @ [c]) = 10 * digits_value xs + digit_value c"
  by (simp add: digits_value_def)

lemma digits_value_digits_of: "digits_value (digits_of n) = int n"
proof (induction n rule: digits_of.induct)
  case (1 n)
  show ?case
  proof (cases "n < 10")
    case True
    then show ?thesis
      by (subst digits_of.simps) (simp add: digits_value_def digit_value_digit_char)
  next
    case False
    with 1 have "digits_value (digits_of (n div 10)) = int (n div 10)" by simp
    moreover have "10 * int (n div 10) + int (n mod 10) = int n"
      by (metis mult_div_mod_eq of_nat_add of_nat_mult of_nat_numeral)
    ultimately show ?thesis using False
      by (subst digits_of.simps) (simp add: digits_value_snoc digit_value_digit_char)
  qed
qed

lemma isdigit_digits_of: "list_all isdigit_char (digits_of n)"
proof (induction n rule: digits_of.induct)
  case (1 n)
  show ?case
  proof (cases "n < 10")
    case True
    then show ?thesis
      by (subst digits_of.simps) (simp add: isdigit_digit_char)
  next
    case False
    with 1 have "list_all isdigit_char (digits_of (n div 10))" by simp
    with False show ?thesis
      by (subst digits_of.simps) (simp add: isdigit_digit_char)
  qed
qed

lemma length_digits_of: "0 < k \<Longrightarrow> n < 10 ^ k \<Longrightarrow> length (digits_of n) \<le> k"
proof (induction n arbitrary: k rule: digits_of.induct)
  case (1 n)
  show ?case
  proof (cases "n < 10")
    case True
    with 1(2) show ?thesis
      by (subst digits_of.simps) simp
  next
    case False
    with 1(3) have "1 < k" by (cases "k = 1") (use 1(2) in auto)
    then obtain j where k: "k = Suc j" "0 < j" by (cases k) auto
    with 1(3) have "n div 10 < 10 ^ j" by (simp add: less_mult_imp_div_less mult.commute)
    with 1(1) False k have "length (digits_of (n div 10)) \<le> j" by simp
    with False k show ?thesis
      by (subst digits_of.simps) simp
  qed
qed

lemma digits_value_zeros: "digits_value (replicate k (CHR ''0'') @ s) = digits_value s"
proof -
  have "foldl (\<lambda>acc c. 10 * acc + digit_value c) 0 (replicate k (CHR ''0'')) = 0"
    by (induction k) (simp_all add: digit_value_def ord_char_def)
  then show ?thesis by (simp add: digits_value_def)
qed

lemma format_04d_props:
  assumes "0 \<le> n" "n \<le> 9999"
  shows "length (format_04d n) = 4" "list_all isdigit_char (format_04d n)"
    "digits_value (format_04d n) = n"
proof -
  have "nat n < 10 ^ 4" using assms by simp
  then have len: "length (digits_of (nat n)) \<le> 4" by (intro length_digits_of) simp_all
  from assms len show "length (format_04d n) = 4"
    by (simp add: format_04d_def zfill_def)
  have "isdigit_char (CHR ''0'')" by (simp add: isdigit_char_def ord_char_def)
  then show "list_all isdigit_char (format_04d n)"
    using assms isdigit_digits_of [of "nat n"]
    by (auto simp: format_04d_def zfill_def list_all_iff)
  show "digits_value (format_04d n) = n"
    using assms by (simp add: format_04d_def zfill_def digits_value_zeros digits_value_digits_of)
qed

lemma digits_value_bounds:
  "list_all isdigit_char s \<Longrightarrow> 0 \<le> digits_value s \<and> digits_value s < 10 ^ length s"
proof (induction s rule: rev_induct)
  case Nil
  then show ?case by (simp add: digits_value_def)
next
  case (snoc c s)
  then have "0 \<le> digit_value c \<and> digit_value c \<le> 9"
    by (auto simp: isdigit_char_def digit_value_def)
  with snoc show ?case by (simp add: digits_value_snoc)
qed

lemma digit_quad_range: "digit_quad s \<Longrightarrow> 0 \<le> digits_value s \<and> digits_value s \<le> 9999"
  using digits_value_bounds [of s] by (simp add: digit_quad_def)

lemma foldl_snoc_map: "foldl (\<lambda>acc x. acc @ [f x]) ys xs = ys @ map f xs"
  by (induction xs arbitrary: ys) simp_all

lemma series_numbers_eq:
  "series_numbers p c s a b acc = acc @ map (number_str p c s) [a..b]"
  by (simp add: series_numbers_def py_range_def foldl_snoc_map)

lemma write_lines_eq: "write_lines xs = concat (map (\<lambda>n. n @ [newline]) xs)"
proof -
  have "foldl (\<lambda>out number. out @ number @ [newline]) ys xs = ys @ concat (map (\<lambda>n. n @ [newline]) xs)" for ys
    by (induction xs arbitrary: ys) simp_all
  then show ?thesis by (simp add: write_lines_def)
qed

lemma letter_pair_checks: "letter_pair s \<Longrightarrow> length s = 2 \<and> isalpha s"
  by (auto simp: letter_pair_def isalpha_def)

lemma digit_pair_checks: "digit_pair s \<Longrightarrow> length s = 2 \<and> isdigit s"
  by (auto simp: digit_pair_def isdigit_def)

lemma digit_quad_checks: "digit_quad s \<Longrightarrow> length s = 4 \<and> isdigit s"
  by (auto simp: digit_quad_def isdigit_def)

lemma generate_vehicle_numbers_ok:
  assumes "letter_pair prefix" "digit_pair code" "letter_pair series"
    "digit_quad start_digits" "digit_quad end_digits"
    "digits_value start_digits \<le> digits_value end_digits"
  shows "generate_vehicle_numbers prefix code series start_digits end_digits disk =
     (Inr (''vehicle_numbers_'' @ upper prefix @ code @ upper series @ ''.txt''),
      disk(''vehicle_numbers_'' @ upper prefix @ code @ upper series @ ''.txt'' \<mapsto>
        write_lines (series_numbers prefix code series (digits_value start_digits) (digits_value end_digits) [])))"
  using assms letter_pair_checks [of prefix] letter_pair_checks [of series]
    digit_pair_checks [of code] digit_quad_checks [of start_digits] digit_quad_checks [of end_digits]
  by (simp add: generate_vehicle_numbers_def Let_def)

lemma isalpha_not_space: "isalpha_char c \<Longrightarrow> \<not> isspace_char c"
  by (auto simp: isalpha_char_def isspace_char_def)

lemma isdigit_not_space: "isdigit_char c \<Longrightarrow> \<not> isspace_char c"
  by (auto simp: isdigit_char_def isspace_char_def)

lemma strip_id: "s \<noteq> [] \<Longrightarrow> \<not> isspace_char (hd s) \<Longrightarrow> \<not> isspace_char (last s) \<Longrightarrow> strip s = s"
proof -
  assume a: "s \<noteq> []" "\<not> isspace_char (hd s)" "\<not> isspace_char (last s)"
  then have 1: "dropWhile isspace_char s = s" by (cases s) auto
  from a have "rev s \<noteq> []" "\<not> isspace_char (hd (rev s))" by (simp_all add: hd_rev)
  then have "dropWhile isspace_char (rev s) = rev s" by (cases "rev s") auto
  with 1 show ?thesis by (simp add: strip_def)
qed

lemma ord_upper_char:
  "ord_char (upper_char c) = (if 97 \<le> ord_char c \<and> ord_char c \<le> 122 then ord_char c - 32 else ord_char c)"
  by (auto simp: upper_char_def ord_char_def)

lemma isalpha_upper_char: "isalpha_char c \<Longrightarrow> isalpha_char (upper_char c)"
  by (auto simp: isalpha_char_def ord_upper_char)

lemma letter_pair_upper: "letter_pair s \<Longrightarrow> letter_pair (upper s)"
  by (auto simp: letter_pair_def upper_def list_all_iff isalpha_upper_char)

lemma letter_pair_strip: "letter_pair s \<Longrightarrow> strip s = s"
proof -
  assume l: "letter_pair s"
  then obtain x y where s: "s = [x, y]"
    by (cases s; cases "tl s") (auto simp: letter_pair_def)
  with l have "isalpha_char x" "isalpha_char y" by (simp_all add: letter_pair_def)
  then show ?thesis unfolding s by (intro strip_id) (simp_all add: isalpha_not_space)
qed

lemma batch_loop_valid:
  "list_all letter_pair ss \<Longrightarrow>
   batch_loop p c a b ss acc = Inr (acc @ concat (map (\<lambda>s. series_numbers p c s a b []) ss))"
proof (induction ss arbitrary: acc)
  case Nil
  then show ?case by simp
next
  case (Cons s ss)
  then have l: "letter_pair s" and r: "list_all letter_pair ss" by simp_all
  have u: "length (upper s) = 2 \<and> isalpha (upper s)"
    using letter_pair_checks [OF letter_pair_upper [OF l]] .
  have "foldl (\<lambda>acc num. acc @ [upper p @ c @ upper s @ format_04d num]) acc (py_range a (b + 1))
      = acc @ series_numbers p c s a b []"
    by (simp add: series_numbers_def foldl_snoc_map number_str_def)
  with u Cons.IH [OF r] show ?case
    by (simp add: letter_pair_strip [OF l] Let_def)
qed

lemma length_series_numbers: "length (series_numbers p c s a b []) = nat (b - a + 1)"
  by (simp add: series_numbers_eq)

lemma length_concat_const: "(\<And>x. x \<in> set xs \<Longrightarrow> length (f x) = n) \<Longrightarrow> length (concat (map f xs)) = n * length xs"
  by (induction xs) simp_all

lemma generate_batch_ok:
  assumes "letter_pair prefix" "digit_pair code" "series_list \<noteq> []" "list_all letter_pair series_list"
    "digit_quad start_digits" "digit_quad end_digits"
    "digits_value start_digits \<le> digits_value end_digits"
  shows "generate_batch_vehicle_numbers prefix code series_list start_digits end_digits disk =
     (Inr (''vehicle_numbers_batch_'' @ upper prefix @ code @ ''.txt''),
      disk(''vehicle_numbers_batch_'' @ upper prefix @ code @ ''.txt'' \<mapsto>
        write_lines (concat (map (\<lambda>s. series_numbers prefix code s (digits_value start_digits) (digits_value end_digits) []) series_list))))"
  using assms letter_pair_checks [of prefix]
    digit_pair_checks [of code] digit_quad_checks [of start_digits] digit_quad_checks [of end_digits]
  by (simp add: generate_batch_vehicle_numbers_def Let_def batch_loop_valid)

lemma shapes_example:
  "letter_pair ''AB''" "letter_pair ''ab''" "letter_pair ''CD''" "letter_pair ''cd''" "letter_pair ''EF''" "digit_pair ''12''"
  "digit_quad ''0001''" "digit_quad ''0003''" "digit_quad ''0098''" "digit_quad ''0101''"
  by (simp_all add: letter_pair_def digit_pair_def digit_quad_def isalpha_char_def isdigit_char_def ord_char_def)

lemma values_example:
  "digits_value ''0001'' = 1" "digits_value ''0003'' = 3" "digits_value ''0098'' = 98" "digits_value ''0101'' = 101"
  by (simp_all add: digits_value_def digit_value_def ord_char_def)

section \<open>Claims about the generators\<close>

text \<open>
  Claim C1. For a two-letter prefix and series, a two-digit code and four-digit start and
  end with start \<open>\<le>\<close> end, \<open>generate_vehicle_numbers\<close> succeeds and writes, one per line,
  exactly \<open>end - start + 1\<close> identifiers: the \<open>i\<close>-th is the upper-cased prefix, the code, the
  upper-cased series and the sequence number \<open>start + i\<close> zero-padded to four digits, so
  the numeric suffixes increase strictly from start to end.
\<close>

theorem generate_vehicle_numbers_valid:
  assumes "letter_pair prefix" "digit_pair code" "letter_pair series"
    "digit_quad start_digits" "digit_quad end_digits"
    "digits_value start_digits \<le> digits_value end_digits"
  shows "let a = digits_value start_digits; b = digits_value end_digits;
             stem = upper prefix @ code @ upper series;
             numbers = map (\<lambda>n. stem @ format_04d n) [a..b];
             filename = ''vehicle_numbers_'' @ stem @ ''.txt''
         in generate_vehicle_numbers prefix code series start_digits end_digits disk =
              (Inr filename, disk(filename \<mapsto> concat (map (\<lambda>number. number @ [newline]) numbers)))
          \<and> length numbers = nat (b - a + 1)
          \<and> (\<forall>i < length numbers.
                numbers ! i = stem @ format_04d (a + int i)
              \<and> length (format_04d (a + int i)) = 4
              \<and> list_all isdigit_char (format_04d (a + int i))
              \<and> digits_value (format_04d (a + int i)) = a + int i)
          \<and> (\<forall>i j. i < j \<and> j < length numbers \<longrightarrow>
                digits_value (drop (length stem) (numbers ! i))
                  < digits_value (drop (length stem) (numbers ! j)))"
proof -
  define a where "a = digits_value start_digits"
  define b where "b = digits_value end_digits"
  define stem where "stem = upper prefix @ code @ upper series"
  define numbers where "numbers = map (\<lambda>n. stem @ format_04d n) [a..b]"
  have ab: "0 \<le> a" "a \<le> b" "b \<le> 9999"
    using assms digit_quad_range [of start_digits] digit_quad_range [of end_digits]
    by (simp_all add: a_def b_def)
  have run: "generate_vehicle_numbers prefix code series start_digits end_digits disk =
      (Inr (''vehicle_numbers_'' @ stem @ ''.txt''),
       disk(''vehicle_numbers_'' @ stem @ ''.txt'' \<mapsto> concat (map (\<lambda>number. number @ [newline]) numbers)))"
    using generate_vehicle_numbers_ok [OF assms, of disk]
    by (simp add: series_numbers_eq write_lines_eq number_str_def [abs_def] stem_def numbers_def a_def b_def)
  have len: "length numbers = nat (b - a + 1)"
    by (simp add: numbers_def)
  have nth: "numbers ! i = stem @ format_04d (a + int i)" if "i < length numbers" for i
    using that by (simp add: numbers_def)
  have fmt: "length (format_04d (a + int i)) = 4 \<and> list_all isdigit_char (format_04d (a + int i))
      \<and> digits_value (format_04d (a + int i)) = a + int i" if "i < length numbers" for i
  proof -
    from that len ab have "0 \<le> a + int i" "a + int i \<le> 9999" by simp_all
    then show ?thesis by (simp add: format_04d_props)
  qed
  have incr: "digits_value (drop (length stem) (numbers ! i))
      < digits_value (drop (length stem) (numbers ! j))" if "i < j" "j < length numbers" for i j
  proof -
    from that have "i < length numbers" by simp
    with that nth [of i] nth [of j] fmt [of i] fmt [of j] show ?thesis by simp
  qed
  show ?thesis
    unfolding Let_def a_def [symmetric] b_def [symmetric] stem_def [symmetric] numbers_def [symmetric]
    using run len nth fmt incr by blast
qed


theorem generate_vehicle_numbers_valid_witness:
  "letter_pair ''ab'' \<and> digit_pair ''12'' \<and> letter_pair ''cd'' \<and> digit_quad ''0098'' \<and> digit_quad ''0101''
   \<and> digits_value ''0098'' \<le> digits_value ''0101''
   \<and> generate_vehicle_numbers ''ab'' ''12'' ''cd'' ''0098'' ''0101'' Map.empty =
       (Inr ''vehicle_numbers_AB12CD.txt'',
        [''vehicle_numbers_AB12CD.txt'' \<mapsto>
          concat (map (\<lambda>number. number @ [newline])
            [''AB12CD0098'', ''AB12CD0099'', ''AB12CD0100'', ''AB12CD0101''])])"
proof -
  have h: "letter_pair ''ab''" "digit_pair ''12''" "letter_pair ''cd''" "digit_quad ''0098''" "digit_quad ''0101''"
    by (simp_all add: letter_pair_def digit_pair_def digit_quad_def isalpha_char_def isdigit_char_def ord_char_def)
  have v: "digits_value ''0098'' = 98" "digits_value ''0101'' = 101"
    by (simp_all add: digits_value_def digit_value_def ord_char_def)
  have r: "[98..101] = [98, 99, 100, 101::int]" by (simp add: upto_rec1)
  have f: "format_04d 98 = ''0098''" "format_04d 99 = ''0099''" "format_04d 100 = ''0100''" "format_04d 101 = ''0101''"
    by code_simp+
  have u: "upper ''ab'' = ''AB''" "upper ''cd'' = ''CD''"
    by code_simp+
  from h v show ?thesis
    using generate_vehicle_numbers_valid [of "''ab''" "''12''" "''cd''" "''0098''" "''0101''" Map.empty]
    by (simp add: Let_def r f u)
qed

text \<open>
  Claim C2. When the other fields pass their shape rules and start exceeds end, both
  generators return the range error and leave the files as they were: no file is written.
\<close>

theorem start_after_end_is_range_error:
  assumes "letter_pair prefix" "digit_pair code" "letter_pair series" "series_list \<noteq> []"
    "digit_quad start_digits" "digit_quad end_digits"
    "digits_value start_digits > digits_value end_digits"
  shows "generate_vehicle_numbers prefix code series start_digits end_digits disk
           = (Inl RangeError, disk)
       \<and> generate_batch_vehicle_numbers prefix code series_list start_digits end_digits disk
           = (Inl RangeError, disk)"
  using assms letter_pair_checks [of prefix] letter_pair_checks [of series]
    digit_pair_checks [of code] digit_quad_checks [of start_digits] digit_quad_checks [of end_digits]
  by (simp add: generate_vehicle_numbers_def generate_batch_vehicle_numbers_def Let_def)

theorem start_after_end_is_range_error_witness:
  "letter_pair ''AB'' \<and> digit_pair ''12'' \<and> letter_pair ''CD'' \<and> [''CD'', ''EF''] \<noteq> []
   \<and> digit_quad ''0003'' \<and> digit_quad ''0001'' \<and> digits_value ''0003'' > digits_value ''0001''
   \<and> generate_vehicle_numbers ''AB'' ''12'' ''CD'' ''0003'' ''0001'' Map.empty = (Inl RangeError, Map.empty)
   \<and> generate_batch_vehicle_numbers ''AB'' ''12'' [''CD'', ''EF''] ''0003'' ''0001'' Map.empty
       = (Inl RangeError, Map.empty)"
  using start_after_end_is_range_error [of "''AB''" "''12''" "''CD''" "[''CD'', ''EF'']" "''0003''" "''0001''" Map.empty]
  by (simp add: shapes_example values_example)

lemma nth_concat_const:
  "(\<And>x. x \<in> set xs \<Longrightarrow> length (f x) = n) \<Longrightarrow> i < length xs \<Longrightarrow> j < n \<Longrightarrow>
   concat (map f xs) ! (i * n + j) = f (xs ! i) ! j"
proof (induction xs arbitrary: i)
  case Nil
  then show ?case by simp
next
  case (Cons x xs)
  show ?case
  proof (cases i)
    case 0
    with Cons.prems show ?thesis by (simp add: nth_append)
  next
    case (Suc k)
    with Cons.prems have "concat (map f xs) ! (k * n + j) = f (xs ! k) ! j"
      by (intro Cons.IH) simp_all
    with Suc Cons.prems(1) [of x] show ?thesis by (simp add: nth_append add.assoc)
  qed
qed

text \<open>
  Claim C3. For a valid prefix and code, a non-empty list of two-letter series and
  start \<open>\<le>\<close> end, the batch file holds, one per line, the concatenation in the order of
  the list of the sequences the single generator writes for each series: the identifier
  at position \<open>i * (end - start + 1) + j\<close> is that of the \<open>i\<close>-th series with the number
  \<open>start + j\<close>, and there are \<open>(end - start + 1)\<close> times the number of series of them. With
  the series \<open>CD, EF\<close>, start \<open>0001\<close> and end \<open>0003\<close> the file holds the six identifiers
  \<open>CD0001, CD0002, CD0003, EF0001, EF0002, EF0003\<close> behind the common stem, in this order.
\<close>

theorem generate_batch_concatenates:
  assumes "letter_pair prefix" "digit_pair code" "series_list \<noteq> []" "list_all letter_pair series_list"
    "digit_quad start_digits" "digit_quad end_digits"
    "digits_value start_digits \<le> digits_value end_digits"
  shows "let a = digits_value start_digits; b = digits_value end_digits;
             single = (\<lambda>series. map (\<lambda>n. upper prefix @ code @ upper series @ format_04d n) [a..b]);
             numbers = concat (map single series_list);
             filename = ''vehicle_numbers_batch_'' @ upper prefix @ code @ ''.txt''
         in generate_batch_vehicle_numbers prefix code series_list start_digits end_digits disk =
              (Inr filename, disk(filename \<mapsto> concat (map (\<lambda>number. number @ [CHR 0x0A]) numbers)))
          \<and> length numbers = nat (b - a + 1) * length series_list
          \<and> (\<forall>i < length series_list. \<forall>j < nat (b - a + 1).
                numbers ! (i * nat (b - a + 1) + j)
                  = upper prefix @ code @ upper (series_list ! i) @ format_04d (a + int j))
          \<and> (\<forall>series \<in> set series_list.
                generate_vehicle_numbers prefix code series start_digits end_digits disk =
                  (Inr (''vehicle_numbers_'' @ upper prefix @ code @ upper series @ ''.txt''),
                   disk(''vehicle_numbers_'' @ upper prefix @ code @ upper series @ ''.txt'' \<mapsto>
                     concat (map (\<lambda>number. number @ [CHR 0x0A]) (single series)))))"
proof -
  define a where "a = digits_value start_digits"
  define b where "b = digits_value end_digits"
  define single where
    "single = (\<lambda>series. map (\<lambda>n. upper prefix @ code @ upper series @ format_04d n) [a..b])"
  define numbers where "numbers = concat (map single series_list)"
  have single: "series_numbers prefix code s a b [] = single s" for s
    by (simp add: series_numbers_eq number_str_def [abs_def] single_def)
  have nl: "newline = CHR 0x0A" by (simp add: newline_def)
  have 1: "generate_batch_vehicle_numbers prefix code series_list start_digits end_digits disk =
      (Inr (''vehicle_numbers_batch_'' @ upper prefix @ code @ ''.txt''),
       disk(''vehicle_numbers_batch_'' @ upper prefix @ code @ ''.txt'' \<mapsto>
         concat (map (\<lambda>number. number @ [CHR 0x0A]) numbers)))"
    using generate_batch_ok [OF assms, of disk]
    by (simp add: single a_def [symmetric] b_def [symmetric] numbers_def write_lines_eq nl)
  have len: "length (single s) = nat (b - a + 1)" for s
    by (simp add: single_def)
  have 2: "length numbers = nat (b - a + 1) * length series_list"
    unfolding numbers_def by (rule length_concat_const) (rule len)
  have 3: "numbers ! (i * nat (b - a + 1) + j)
      = upper prefix @ code @ upper (series_list ! i) @ format_04d (a + int j)"
    if "i < length series_list" "j < nat (b - a + 1)" for i j
  proof -
    have "numbers ! (i * nat (b - a + 1) + j) = single (series_list ! i) ! j"
      unfolding numbers_def using that by (intro nth_concat_const) (simp_all add: len)
    also have "\<dots> = upper prefix @ code @ upper (series_list ! i) @ format_04d (a + int j)"
      using that(2) by (simp add: single_def)
    finally show ?thesis .
  qed
  have 4: "generate_vehicle_numbers prefix code s start_digits end_digits disk =
      (Inr (''vehicle_numbers_'' @ upper prefix @ code @ upper s @ ''.txt''),
       disk(''vehicle_numbers_'' @ upper prefix @ code @ upper s @ ''.txt'' \<mapsto>
         concat (map (\<lambda>number. number @ [CHR 0x0A]) (single s))))"
    if "s \<in> set series_list" for s
  proof -
    from that assms(4) have "letter_pair s" by (simp add: list_all_iff)
    from generate_vehicle_numbers_ok [OF assms(1,2) this assms(5,6,7), of disk]
    show ?thesis by (simp add: single a_def [symmetric] b_def [symmetric] write_lines_eq nl)
  qed
  show ?thesis
    unfolding Let_def a_def [symmetric] b_def [symmetric]
    using 1 2 3 4 unfolding numbers_def single_def
    by (intro conjI allI impI ballI) assumption+
qed

theorem generate_batch_concatenates_witness:
  "letter_pair ''AB'' \<and> digit_pair ''12'' \<and> [''CD'', ''EF''] \<noteq> []
   \<and> list_all letter_pair [''CD'', ''EF''] \<and> digit_quad ''0001'' \<and> digit_quad ''0003''
   \<and> digits_value ''0001'' \<le> digits_value ''0003''
   \<and> generate_batch_vehicle_numbers ''AB'' ''12'' [''CD'', ''EF''] ''0001'' ''0003'' Map.empty =
       (Inr ''vehicle_numbers_batch_AB12.txt'',
        [''vehicle_numbers_batch_AB12.txt'' \<mapsto>
           ''AB12CD0001'' @ [CHR 0x0A] @ ''AB12CD0002'' @ [CHR 0x0A] @ ''AB12CD0003'' @ [CHR 0x0A]
         @ ''AB12EF0001'' @ [CHR 0x0A] @ ''AB12EF0002'' @ [CHR 0x0A] @ ''AB12EF0003'' @ [CHR 0x0A]])"
proof -
  have r: "[1..3] = [1, 2, 3::int]" by (simp add: upto_rec1)
  have f: "format_04d 1 = ''0001''" "format_04d 2 = ''0002''" "format_04d 3 = ''0003''"
    by code_simp+
  have u: "upper ''AB'' = ''AB''" "upper ''CD'' = ''CD''" "upper ''EF'' = ''EF''"
    by code_simp+
  have le: "digits_value ''0001'' \<le> digits_value ''0003''" by (simp add: values_example)
  have ne: "[''CD'', ''EF''] \<noteq> []" by simp
  have ls: "list_all letter_pair [''CD'', ''EF'']" by (simp add: shapes_example)
  note t = generate_batch_concatenates [OF shapes_example(1) shapes_example(6) ne ls
      shapes_example(7) shapes_example(8) le, where disk = Map.empty, unfolded Let_def]
  note run = t [THEN conjunct1]
  have "generate_batch_vehicle_numbers ''AB'' ''12'' [''CD'', ''EF''] ''0001'' ''0003'' Map.empty =
       (Inr ''vehicle_numbers_batch_AB12.txt'',
        [''vehicle_numbers_batch_AB12.txt'' \<mapsto>
           ''AB12CD0001'' @ [CHR 0x0A] @ ''AB12CD0002'' @ [CHR 0x0A] @ ''AB12CD0003'' @ [CHR 0x0A]
         @ ''AB12EF0001'' @ [CHR 0x0A] @ ''AB12EF0002'' @ [CHR 0x0A] @ ''AB12EF0003'' @ [CHR 0x0A]])"
    using run by (simp add: values_example r f u)
  then show ?thesis using shapes_example le by simp
qed

section \<open>Properties of the series list step\<close>

lemma collect_valid_series_eq:
  "collect_valid_series xs acc = acc @ filter (\<lambda>s. length s = 2 \<and> isalpha s) (map strip xs)"
  by (induction xs arbitrary: acc) (simp_all add: Let_def)

lemma set_strip: "set (strip s) \<subseteq> set s"
proof -
  have "set (strip s) \<subseteq> set (dropWhile isspace_char s)"
    unfolding strip_def using set_dropWhileD [of _ isspace_char "rev (dropWhile isspace_char s)"] by auto
  also have "\<dots> \<subseteq> set s" using set_dropWhileD [of _ isspace_char s] by auto
  finally show ?thesis .
qed

lemma set_split_char: "t \<in> set (split_char c cur s) \<Longrightarrow> set t \<subseteq> set cur \<union> set s"
proof (induction s arbitrary: cur)
  case Nil
  then show ?case by simp
next
  case (Cons x xs)
  show ?case
  proof (cases "x = c")
    case True
    with Cons.prems have "t = cur \<or> t \<in> set (split_char c [] xs)" by simp
    with Cons.IH [of "[]"] show ?thesis by auto
  next
    case False
    with Cons.prems have "t \<in> set (split_char c (cur @ [x]) xs)" by simp
    with Cons.IH [of "cur @ [x]"] show ?thesis by auto
  qed
qed

lemma set_split_whitespace: "t \<in> set (split_whitespace cur s) \<Longrightarrow> set t \<subseteq> set cur \<union> set s"
proof (induction s arbitrary: cur)
  case Nil
  then show ?case by (simp split: if_splits)
next
  case (Cons x xs)
  show ?case
  proof (cases "isspace_char x")
    case True
    with Cons.prems have "t = cur \<or> t \<in> set (split_whitespace [] xs)" by (simp split: if_splits)
    with Cons.IH [of "[]"] show ?thesis by auto
  next
    case False
    with Cons.prems have "t \<in> set (split_whitespace (cur @ [x]) xs)" by simp
    with Cons.IH [of "cur @ [x]"] show ?thesis by auto
  qed
qed

lemma upper_char_not_lower: "\<not> (97 \<le> ord_char (upper_char c) \<and> ord_char (upper_char c) \<le> 122)"
  by (auto simp: ord_upper_char)

lemma upper_fixed: "set s \<subseteq> set (upper t) \<Longrightarrow> upper s = s"
proof -
  assume a: "set s \<subseteq> set (upper t)"
  have "upper_char c = c" if "c \<in> set s" for c
  proof -
    from that a obtain d where "c = upper_char d" by (auto simp: upper_def)
    then show ?thesis using upper_char_not_lower [of d] by (subst upper_char_def) auto
  qed
  then show ?thesis by (simp add: upper_def map_idI)
qed

lemma parse_series_list_upper: "s \<in> set (parse_series_list text) \<Longrightarrow> letter_pair s \<and> upper s = s"
proof -
  assume "s \<in> set (parse_series_list text)"
  then obtain t where t: "s = strip t" "length s = 2" "isalpha s"
    and "t \<in> set (map strip (split_char (CHR '','') [] (upper text))) \<or> t \<in> set (split_whitespace [] (upper text))"
    by (auto simp: parse_series_list_def collect_valid_series_eq Let_def split: if_splits)
  then have "set t \<subseteq> set (upper text)"
    using set_strip set_split_char [of _ "CHR '',''" "[]" "upper text"] set_split_whitespace [of t "[]" "upper text"]
    by fastforce
  with t(1) set_strip [of t] have "set s \<subseteq> set (upper text)" by blast
  with t show ?thesis by (simp add: upper_fixed letter_pair_def isalpha_def)
qed


lemma user_data_call_other [simp]: "user_data (snd (call_other e w)) = user_data w"
  by (simp add: call_other_def split: list.splits outcome.splits)

lemma user_data_reply_text [simp]: "user_data (snd (reply_text m w)) = user_data w"
  by (simp add: reply_text_def)

lemma letter_pair_iff: "letter_pair s \<longleftrightarrow> length s = 2 \<and> isalpha s"
  by (auto simp: letter_pair_def isalpha_def)

text \<open>
  Claim C4, as the code has it. On ASCII input the step upper-cases the text, takes as
  tokens its comma-separated pieces when it holds a comma and its whitespace-separated
  pieces otherwise, trims every token and keeps the tokens that are two letters, in their
  order and with their repetitions: invalid tokens are dropped, duplicates are not. The
  input is rejected (the session is left as it was) only when no token is left. That
  duplicates are dropped, as the claim has it, fails at the input \<open>CD,CD\<close>, which is
  stored as the list \<open>CD, CD\<close>; and once a comma occurs whitespace no longer separates:
  \<open>cd ef,gh\<close> is stored as the list \<open>GH\<close>.
\<close>

theorem series_list_normalisation:
  assumes "ascii text"
  shows
  "let tokens = (if CHR '','' \<in> set (upper text) then map strip (split_char (CHR '','') [] (upper text))
                 else split_whitespace [] (upper text));
       valid_series = parse_series_list text;
       after = snd (handle_batch_generation text (Some (Str ''series_list'')) w)
   in valid_series = filter letter_pair (map strip tokens)
    \<and> list_all (\<lambda>s. letter_pair s \<and> upper s = s) valid_series
    \<and> (\<forall>s. letter_pair s \<longrightarrow> count_list valid_series s = count_list (map strip tokens) s)
    \<and> (valid_series = [] \<longrightarrow> user_data after = user_data w)
    \<and> (valid_series \<noteq> [] \<longrightarrow>
         user_data after = (user_data w)(''series_list'' \<mapsto> StrList valid_series,
                                        ''step'' \<mapsto> Str ''start_digits''))"
proof -
  define tokens where "tokens = (if CHR '','' \<in> set (upper text) then map strip (split_char (CHR '','') [] (upper text))
                 else split_whitespace [] (upper text))"
  have 1: "parse_series_list text = filter letter_pair (map strip tokens)"
    by (simp add: parse_series_list_def collect_valid_series_eq tokens_def Let_def letter_pair_iff [abs_def])
  have 2: "list_all (\<lambda>s. letter_pair s \<and> upper s = s) (parse_series_list text)"
    using parse_series_list_upper [of _ "text"] by (auto simp: list_all_iff)
  have 3: "count_list (parse_series_list text) s = count_list (map strip tokens) s" if "letter_pair s" for s
    unfolding 1 using that by (induction "map strip tokens" arbitrary: tokens) auto
  have 4: "user_data (snd (handle_batch_generation text (Some (Str ''series_list'')) w)) = user_data w"
    if "parse_series_list text = []"
    using that by (simp add: handle_batch_generation_def Let_def)
  have 5: "user_data (snd (handle_batch_generation text (Some (Str ''series_list'')) w))
      = (user_data w)(''series_list'' \<mapsto> StrList (parse_series_list text), ''step'' \<mapsto> Str ''start_digits'')"
    if "parse_series_list text \<noteq> []"
    using that by (simp add: handle_batch_generation_def store_def Let_def)
  show ?thesis
    unfolding Let_def tokens_def [symmetric] using 1 2 3 4 5 by blast
qed

theorem series_list_normalisation_witness:
  "ascii ''cd, xyz,EF ,cd''
   \<and> parse_series_list ''cd, xyz,EF ,cd'' = [''CD'', ''EF'', ''CD'']
   \<and> count_list (parse_series_list ''cd, xyz,EF ,cd'') ''CD'' = 2
   \<and> user_data (snd (handle_batch_generation ''cd, xyz,EF ,cd'' (Some (Str ''series_list'')) series_step_session))
       = (user_data series_step_session)(''series_list'' \<mapsto> StrList [''CD'', ''EF'', ''CD''],
                                         ''step'' \<mapsto> Str ''start_digits'')"
proof -
  have a: "ascii ''cd, xyz,EF ,cd''" by (simp add: ascii_def ord_char_def)
  note t = series_list_normalisation [OF a, where w = series_step_session, unfolded Let_def]
  have p: "parse_series_list ''cd, xyz,EF ,cd'' = [''CD'', ''EF'', ''CD'']" by code_simp
  from t have "parse_series_list ''cd, xyz,EF ,cd'' \<noteq> [] \<longrightarrow>
      user_data (snd (handle_batch_generation ''cd, xyz,EF ,cd'' (Some (Str ''series_list'')) series_step_session))
       = (user_data series_step_session)(''series_list'' \<mapsto> StrList (parse_series_list ''cd, xyz,EF ,cd''),
                                         ''step'' \<mapsto> Str ''start_digits'')"
    by blast
  with p a show ?thesis by simp
qed

theorem series_list_duplicates_kept:
  "parse_series_list ''CD,CD'' = [''CD'', ''CD'']
   \<and> \<not> distinct (parse_series_list ''CD,CD'')
   \<and> user_data (snd (handle_message ''CD,CD'' series_step_session)) ''series_list''
       = Some (StrList [''CD'', ''CD''])
   \<and> parse_series_list ''cd ef,gh'' = [''GH'']"
proof -
  have p: "parse_series_list ''CD,CD'' = [''CD'', ''CD'']" by code_simp
  have q: "parse_series_list ''cd ef,gh'' = [''GH'']" by code_simp
  have "user_data (snd (handle_message ''CD,CD'' series_step_session)) ''series_list''
       = Some (StrList [''CD'', ''CD''])"
    by code_simp
  with p q show ?thesis by simp
qed

section \<open>Properties of the converter\<close>

lemma py_split_two:
  "py_split sep 2 s =
     (case find_sep sep s of
        None \<Rightarrow> [s]
      | Some (a, rest) \<Rightarrow>
          (case find_sep sep rest of None \<Rightarrow> [a, rest] | Some (b, c) \<Rightarrow> [a, b, c]))"
  by (simp add: numeral_2_eq_2 split: option.splits)

lemma process_line_step:
  "process_lines (line # rest) (written, n) =
     (if retained line
      then process_lines rest (written @ writerow (secondary line) (primary line), n + 1)
      else process_lines rest (written, n))"
  by (auto simp: Let_def retained_def primary_def secondary_def contains_def py_split_two
      split: option.splits)

lemma process_lines_eq:
  "process_lines lines (written, n) =
     (written @ concat (map (\<lambda>l. writerow (secondary l) (primary l)) (filter retained lines)),
      n + length (filter retained lines))"
proof (induction lines arbitrary: written n)
  case Nil
  then show ?case by simp
next
  case (Cons line rest)
  show ?case
    unfolding process_line_step by (simp add: Cons.IH)
qed

lemma readlines_from_empty: "readlines_from cur s = [] \<longleftrightarrow> cur = [] \<and> s = []"
  by (induction cur s rule: readlines_from.induct) (auto split: list.splits)

lemma readlines_empty: "readlines content = [] \<longleftrightarrow> content = []"
  by (simp add: readlines_def readlines_from_empty)

lemma convert_txt_to_csv_eq:
  "convert_txt_to_csv src dst disk =
     (case disk src of
        None \<Rightarrow> (Inl ReadError, disk)
      | Some content \<Rightarrow>
          if content = [] then (Inl EmptyInputError, disk)
          else (if filter retained (readlines content) = [] then Inl NoValidRecordsError else Inr (),
                disk(dst \<mapsto> writerow ''Number'' ''Vehicle Number''
                   @ concat (map (\<lambda>l. writerow (secondary l) (primary l))
                       (filter retained (readlines content))))))"
  by (simp add: convert_txt_to_csv_def process_lines_eq readlines_empty Let_def split: option.splits)

lemma blank_not_retained: "strip l = [] \<Longrightarrow> \<not> retained l"
  by (simp add: retained_def)

lemma all_blank_none_retained: "list_all (\<lambda>l. strip l = []) ls \<Longrightarrow> filter retained ls = []"
  by (induction ls) (simp_all add: blank_not_retained)

lemma header_text: "writerow ''Number'' ''Vehicle Number'' = ''Number,Vehicle Number'' @ [CHR 0x0D, CHR 0x0A]"
  by code_simp

lemma writerow_nonempty: "writerow a b \<noteq> []"
  by (simp add: writerow_def)

lemma rows_nonempty: "xs \<noteq> [] \<Longrightarrow> concat (map (\<lambda>l. writerow (secondary l) (primary l)) xs) \<noteq> []"
  by (cases xs) (simp_all add: writerow_nonempty)

lemma strip_blank: "list_all isspace_char s \<Longrightarrow> strip s = []"
proof -
  assume "list_all isspace_char s"
  then show ?thesis by (auto simp: strip_def list_all_iff dest: set_dropWhileD)
qed

lemma set_readlines_from:
  "l \<in> set (readlines_from cur s) \<Longrightarrow> set l \<subseteq> set cur \<union> set s \<union> {newline}"
proof (induction cur s rule: readlines_from.induct)
  case (1 current)
  then show ?case by (auto split: if_splits)
next
  case (2 current c cs)
  show ?case
  proof (cases "c = newline")
    case True
    with 2 show ?thesis by auto
  next
    case False
    note nl = this
    show ?thesis
    proof (cases "c = carriage_return")
      case True
      show ?thesis
      proof (cases cs)
        case Nil
        with 2 nl True show ?thesis by auto
      next
        case (Cons d ds)
        with 2 nl True show ?thesis by (cases "d = newline") auto
      qed
    next
      case False
      with 2 nl show ?thesis by auto
    qed
  qed
qed

lemma blank_content_lines:
  assumes "list_all isspace_char content"
  shows "filter retained (readlines content) = []"
proof -
  have sp: "isspace_char newline" by (simp add: isspace_char_def newline_def ord_char_def)
  have "strip l = []" if "l \<in> set (readlines content)" for l
  proof -
    from that set_readlines_from [of l "[]" content] have "set l \<subseteq> set content \<union> {newline}"
      by (simp add: readlines_def)
    with assms sp have "list_all isspace_char l" by (auto simp: list_all_iff)
    then show ?thesis by (rule strip_blank)
  qed
  then show ?thesis by (simp add: filter_empty_conv blank_not_retained)
qed




text \<open>
  Claim C6. The conversion answers with the empty-input error exactly when the source
  file is empty (it has no line), and then creates no file. It answers with the
  no-valid-records error exactly when the source has at least one line and none of its
  lines is retained, which is exactly when the output holds nothing after the header
  row; a source of whitespace only is such a source. The two errors are different values.
\<close>

theorem convert_failures:
  "(fst (convert_txt_to_csv src dst disk) = Inl EmptyInputError \<longleftrightarrow> disk src = Some [])
   \<and> (fst (convert_txt_to_csv src dst disk) = Inl EmptyInputError
        \<longrightarrow> snd (convert_txt_to_csv src dst disk) = disk)
   \<and> (fst (convert_txt_to_csv src dst disk) = Inl NoValidRecordsError
        \<longleftrightarrow> (\<exists>content. disk src = Some content \<and> content \<noteq> []
               \<and> list_all (\<lambda>l. \<not> retained l) (readlines content)))
   \<and> (fst (convert_txt_to_csv src dst disk) = Inl NoValidRecordsError
        \<longleftrightarrow> (\<exists>content. disk src = Some content \<and> content \<noteq> []
               \<and> snd (convert_txt_to_csv src dst disk) dst
                    = Some (''Number,Vehicle Number'' @ [CHR 0x0D, CHR 0x0A])))
   \<and> (disk src = Some content \<and> content \<noteq> [] \<and> list_all isspace_char content
        \<longrightarrow> fst (convert_txt_to_csv src dst disk) = Inl NoValidRecordsError)
   \<and> (readlines content = [] \<longleftrightarrow> content = [])
   \<and> convert_txt_to_csv ''in.txt'' ''out.csv'' [''in.txt'' \<mapsto> []]
        = (Inl EmptyInputError, [''in.txt'' \<mapsto> []])
   \<and> convert_txt_to_csv ''in.txt'' ''out.csv'' [''in.txt'' \<mapsto> '' '' @ [CHR 0x0A, CHR 0x0A]]
        = (Inl NoValidRecordsError,
           [''in.txt'' \<mapsto> '' '' @ [CHR 0x0A, CHR 0x0A],
            ''out.csv'' \<mapsto> ''Number,Vehicle Number'' @ [CHR 0x0D, CHR 0x0A]])
   \<and> convert_txt_to_csv ''in.txt'' ''out.csv'' [''in.txt'' \<mapsto> ''bad line'' @ [CHR 0x0A]]
        = (Inl NoValidRecordsError,
           [''in.txt'' \<mapsto> ''bad line'' @ [CHR 0x0A],
            ''out.csv'' \<mapsto> ''Number,Vehicle Number'' @ [CHR 0x0D, CHR 0x0A]])
   \<and> fst (convert_txt_to_csv ''in.txt'' ''out.csv'' [''in.txt'' \<mapsto> ''AB12CD0001 - 555'' @ [CHR 0x0A]])
        = Inr ()
   \<and> EmptyInputError \<noteq> NoValidRecordsError"
proof -
  let ?r = "convert_txt_to_csv src dst disk"
  let ?h = "''Number,Vehicle Number'' @ [CHR 0x0D, CHR 0x0A]"
  have none: "filter retained ls = [] \<longleftrightarrow> list_all (\<lambda>l. \<not> retained l) ls" for ls
    by (simp add: filter_empty_conv list_all_iff)
  have 1: "fst ?r = Inl EmptyInputError \<longleftrightarrow> disk src = Some []"
    by (auto simp: convert_txt_to_csv_eq split: option.splits)
  have 2: "fst ?r = Inl EmptyInputError \<longrightarrow> snd ?r = disk"
    by (auto simp: convert_txt_to_csv_eq split: option.splits if_splits)
  have 3: "fst ?r = Inl NoValidRecordsError
        \<longleftrightarrow> (\<exists>content. disk src = Some content \<and> content \<noteq> []
               \<and> list_all (\<lambda>l. \<not> retained l) (readlines content))"
    by (auto simp: convert_txt_to_csv_eq none split: option.splits)
  have 4: "fst ?r = Inl NoValidRecordsError
        \<longleftrightarrow> (\<exists>content. disk src = Some content \<and> content \<noteq> [] \<and> snd ?r dst = Some ?h)"
  proof (cases "disk src")
    case None
    then show ?thesis by (simp add: convert_txt_to_csv_eq)
  next
    case (Some c)
    show ?thesis
    proof (cases "c = []")
      case True
      with Some show ?thesis by (simp add: convert_txt_to_csv_eq)
    next
      case False
      show ?thesis
      proof (cases "filter retained (readlines c) = []")
        case True
        with Some False show ?thesis by (simp add: convert_txt_to_csv_eq header_text)
      next
        case ne: False
        from rows_nonempty [OF ne] Some False ne show ?thesis
          by (simp add: convert_txt_to_csv_eq header_text)
      qed
    qed
  qed
  have 5: "disk src = Some content \<and> content \<noteq> [] \<and> list_all isspace_char content
        \<longrightarrow> fst ?r = Inl NoValidRecordsError"
    by (auto simp: convert_txt_to_csv_eq blank_content_lines)
  have e1: "convert_txt_to_csv ''in.txt'' ''out.csv'' [''in.txt'' \<mapsto> []]
        = (Inl EmptyInputError, [''in.txt'' \<mapsto> []])"
    by (simp add: convert_txt_to_csv_eq)
  have b: "filter retained (readlines ('' '' @ [CHR 0x0A, CHR 0x0A])) = []"
    "filter retained (readlines (''bad line'' @ [CHR 0x0A])) = []"
    "filter retained (readlines (''AB12CD0001 - 555'' @ [CHR 0x0A])) \<noteq> []"
    by code_simp+
  have e2: "convert_txt_to_csv ''in.txt'' ''out.csv'' [''in.txt'' \<mapsto> '' '' @ [CHR 0x0A, CHR 0x0A]]
        = (Inl NoValidRecordsError,
           [''in.txt'' \<mapsto> '' '' @ [CHR 0x0A, CHR 0x0A], ''out.csv'' \<mapsto> ?h])"
    unfolding convert_txt_to_csv_eq using b(1) by (simp add: header_text)
  have e3: "convert_txt_to_csv ''in.txt'' ''out.csv'' [''in.txt'' \<mapsto> ''bad line'' @ [CHR 0x0A]]
        = (Inl NoValidRecordsError,
           [''in.txt'' \<mapsto> ''bad line'' @ [CHR 0x0A], ''out.csv'' \<mapsto> ?h])"
    unfolding convert_txt_to_csv_eq using b(2) by (simp add: header_text)
  have e4: "fst (convert_txt_to_csv ''in.txt'' ''out.csv'' [''in.txt'' \<mapsto> ''AB12CD0001 - 555'' @ [CHR 0x0A]])
        = Inr ()"
    unfolding convert_txt_to_csv_eq using b(3) by simp
  show ?thesis
    using 1 2 3 4 5 readlines_empty [of content] e1 e2 e3 e4
    by (intro conjI) (assumption | simp)+
qed

theorem convert_failures_witness:
  "[''in.txt'' \<mapsto> [CHR 0x09, CHR 0x0A]] ''in.txt'' = Some [CHR 0x09, CHR 0x0A]
   \<and> [CHR 0x09, CHR 0x0A] \<noteq> [] \<and> list_all isspace_char [CHR 0x09, CHR 0x0A]
   \<and> fst (convert_txt_to_csv ''in.txt'' ''out.csv'' [''in.txt'' \<mapsto> [CHR 0x09, CHR 0x0A]])
       = Inl NoValidRecordsError"
proof -
  have s: "list_all isspace_char [CHR 0x09, CHR 0x0A]"
    by (simp add: isspace_char_def ord_char_def)
  note t = convert_failures [where disk = "[''in.txt'' \<mapsto> [CHR 0x09, CHR 0x0A]]" and src = "''in.txt''"
      and dst = "''out.csv''" and content = "[CHR 0x09, CHR 0x0A]"]
  note blank = t [THEN conjunct2, THEN conjunct2, THEN conjunct2, THEN conjunct2, THEN conjunct1]
  from blank s have "fst (convert_txt_to_csv ''in.txt'' ''out.csv'' [''in.txt'' \<mapsto> [CHR 0x09, CHR 0x0A]])
       = Inl NoValidRecordsError"
    by simp
  with s show ?thesis by simp
qed

section \<open>Properties of the round trip\<close>

lemma find_sep_first:
  "CHR '' '' \<notin> set a \<Longrightarrow> find_sep separator (a @ separator @ r) = Some (a, r)"
  by (induction a) (auto simp: separator_def)

lemma find_sep_sound: "find_sep sep s = Some (a, b) \<Longrightarrow> s = a @ sep @ b"
proof (induction s arbitrary: a b)
  case Nil
  then show ?case by (simp split: if_splits)
next
  case (Cons c cs)
  show ?case
  proof (cases "take (length sep) (c # cs) = sep")
    case True
    with Cons.prems have "a = []" "b = drop (length sep) (c # cs)" by simp_all
    with True show ?thesis by (metis append_Nil append_take_drop_id)
  next
    case False
    with Cons.prems obtain a' where "find_sep sep cs = Some (a', b)" "a = c # a'"
      by (auto split: option.splits)
    with Cons.IH show ?thesis by simp
  qed
qed

lemma find_sep_none: "CHR '' '' \<notin> set d \<Longrightarrow> find_sep separator d = None"
proof (rule ccontr)
  assume d: "CHR '' '' \<notin> set d" and "find_sep separator d \<noteq> None"
  then obtain a b where "find_sep separator d = Some (a, b)" by auto
  from find_sep_sound [OF this] d show False by (simp add: separator_def)
qed

lemma strip_trailing:
  assumes "s \<noteq> []" "\<not> isspace_char (hd s)" "\<not> isspace_char (last s)" "list_all isspace_char w"
  shows "strip (s @ w) = s"
proof -
  from assms have 1: "dropWhile isspace_char (s @ w) = s @ w" by (cases s) auto
  have "dropWhile isspace_char (rev w @ rev s) = dropWhile isspace_char (rev s)"
    using assms(4) by (simp add: dropWhile_append list_all_iff)
  also have "\<dots> = rev s" using assms(1,3) by (cases "rev s") (auto simp: last_rev hd_rev)
  finally show ?thesis using 1 by (simp add: strip_def)
qed

lemma alnum_plain:
  assumes "isalpha_char c \<or> isdigit_char c"
  shows "\<not> isspace_char c" "c \<noteq> CHR '' ''" "c \<noteq> CHR '',''" "c \<noteq> CHR 0x22" "c \<noteq> carriage_return" "c \<noteq> newline"
  using assms
  by (auto simp: isalpha_char_def isdigit_char_def isspace_char_def ord_char_def carriage_return_def newline_def)

lemma csv_field_alnum: "list_all (\<lambda>c. isalpha_char c \<or> isdigit_char c) x \<Longrightarrow> csv_field x = x"
  using alnum_plain(3-6) by (auto simp: csv_field_def needs_quotes_def list_all_iff list_ex_iff)

lemma record_of_line:
  assumes l: "strip l = x @ separator @ y"
    and x: "x \<noteq> []" "list_all (\<lambda>c. isalpha_char c \<or> isdigit_char c) x"
    and y: "y \<noteq> []" "list_all (\<lambda>c. isalpha_char c \<or> isdigit_char c) y"
  shows "retained l" "primary l = x" "secondary l = y"
    "writerow (secondary l) (primary l) = y @ '','' @ x @ [carriage_return, newline]"
proof -
  have nx: "CHR '' '' \<notin> set x" and ny: "CHR '' '' \<notin> set y"
    using x(2) y(2) alnum_plain(2) by (auto simp: list_all_iff)
  have sx: "strip x = x"
    using x alnum_plain(1) by (intro strip_id) (auto simp: list_all_iff)
  have sy: "strip y = y"
    using y alnum_plain(1) by (intro strip_id) (auto simp: list_all_iff)
  have f: "find_sep separator (strip l) = Some (x, y)"
    unfolding l by (rule find_sep_first [OF nx])
  show p: "primary l = x" by (simp add: primary_def f sx)
  show s: "secondary l = y" by (simp add: secondary_def f find_sep_none [OF ny] sy)
  show "retained l" using p s x(1) y(1) f l by (simp add: retained_def contains_def)
  show "writerow (secondary l) (primary l) = y @ '','' @ x @ [carriage_return, newline]"
    by (simp add: p s writerow_def csv_field_alnum x y)
qed

lemma readlines_from_line:
  "newline \<notin> set l \<Longrightarrow> carriage_return \<notin> set l \<Longrightarrow>
   readlines_from cur (l @ newline # rest) = (cur @ l @ [newline]) # readlines_from [] rest"
  by (induction l arbitrary: cur) auto

lemma readlines_write_lines:
  "list_all (\<lambda>l. newline \<notin> set l \<and> carriage_return \<notin> set l) ls \<Longrightarrow>
   readlines (write_lines ls) = map (\<lambda>l. l @ [newline]) ls"
proof (induction ls)
  case Nil
  then show ?case by (simp add: readlines_def write_lines_eq)
next
  case (Cons l ls)
  then have "readlines_from [] (l @ newline # write_lines ls) = (l @ [newline]) # readlines_from [] (write_lines ls)"
    using readlines_from_line [of l "[]" "write_lines ls"] by simp
  with Cons show ?case by (simp add: readlines_def write_lines_eq)
qed

lemma rows_of_lines:
  assumes ids: "\<And>x. x \<in> set ids \<Longrightarrow> x \<noteq> [] \<and> list_all (\<lambda>c. isalpha_char c \<or> isdigit_char c) x"
    and d: "d \<noteq> []" "list_all isdigit_char d"
    and f: "\<And>x. x \<in> set ids \<Longrightarrow> strip (f x) = x @ separator @ d"
  shows "filter retained (map f ids) = map f ids"
    and "map (\<lambda>l. (secondary l, primary l)) (map f ids) = map (\<lambda>x. (d, x)) ids"
    and "concat (map (\<lambda>l. writerow (secondary l) (primary l)) (map f ids))
           = concat (map (\<lambda>x. d @ '','' @ x @ [carriage_return, newline]) ids)"
proof -
  have dd: "list_all (\<lambda>c. isalpha_char c \<or> isdigit_char c) d"
    using d(2) by (simp add: list_all_iff)
  have r: "retained (f x)" "primary (f x) = x" "secondary (f x) = d"
      "writerow (secondary (f x)) (primary (f x)) = d @ '','' @ x @ [carriage_return, newline]"
    if "x \<in> set ids" for x
    using record_of_line [OF f [OF that] _ _ d(1) dd] ids [OF that] by blast+
  show "filter retained (map f ids) = map f ids"
    using r(1) by (simp add: filter_id_conv)
  have "map (\<lambda>x. (secondary (f x), primary (f x))) ids = map (\<lambda>x. (d, x)) ids"
    by (rule map_cong) (simp_all add: r(2,3))
  then show "map (\<lambda>l. (secondary l, primary l)) (map f ids) = map (\<lambda>x. (d, x)) ids"
    by (simp only: map_map o_def)
  have "map (\<lambda>x. writerow (secondary (f x)) (primary (f x))) ids
      = map (\<lambda>x. d @ '','' @ x @ [carriage_return, newline]) ids"
    by (rule map_cong) (simp_all only: r(4))
  then show "concat (map (\<lambda>l. writerow (secondary l) (primary l)) (map f ids))
           = concat (map (\<lambda>x. d @ '','' @ x @ [carriage_return, newline]) ids)"
    by (simp only: map_map o_def)
qed

lemma isdigit_upper_char: "isdigit_char c \<Longrightarrow> isdigit_char (upper_char c)"
  by (auto simp: isdigit_char_def ord_upper_char)

lemma identifier_alnum:
  assumes "letter_pair prefix" "digit_pair code" "letter_pair series" "0 \<le> n" "n \<le> 9999"
  shows "list_all (\<lambda>c. isalpha_char c \<or> isdigit_char c) (upper prefix @ code @ upper series @ format_04d n)"
    and "upper prefix @ code @ upper series @ format_04d n \<noteq> []"
proof -
  have "list_all isalpha_char (upper prefix)" "list_all isalpha_char (upper series)"
    using letter_pair_upper [OF assms(1)] letter_pair_upper [OF assms(3)] by (simp_all add: letter_pair_def)
  moreover have "list_all isdigit_char code" using assms(2) by (simp add: digit_pair_def)
  moreover have "list_all isdigit_char (format_04d n)" using assms(4,5) by (rule format_04d_props)
  ultimately show "list_all (\<lambda>c. isalpha_char c \<or> isdigit_char c) (upper prefix @ code @ upper series @ format_04d n)"
    by (auto simp: list_all_iff)
  from assms(2) show "upper prefix @ code @ upper series @ format_04d n \<noteq> []"
    by (auto simp: digit_pair_def)
qed

text \<open>
  Claim C7. For a valid input of the single generator with start \<open>\<le>\<close> end and a non-empty
  digit string \<open>d\<close>: the lines \<open>identifier - d\<close>, one per generated identifier, are all
  retained by the converter, which writes one row per identifier, in the same order, with
  \<open>d\<close> in the first column and the identifier in the second (Vehicle Number) column;
  this holds for the loop over the lines and for the conversion of a file holding them.
\<close>

theorem generated_lines_round_trip:
  assumes "letter_pair prefix" "digit_pair code" "letter_pair series"
    "digit_quad start_digits" "digit_quad end_digits"
    "digits_value start_digits \<le> digits_value end_digits"
    "d \<noteq> []" "list_all isdigit_char d"
  shows "let stem = upper prefix @ code @ upper series;
             ids = map (\<lambda>n. stem @ format_04d n) [digits_value start_digits..digits_value end_digits];
             lines = map (\<lambda>x. x @ separator @ d) ids;
             rows = concat (map (\<lambda>x. d @ '','' @ x @ [carriage_return, newline]) ids)
         in generate_vehicle_numbers prefix code series start_digits end_digits disk =
              (Inr (''vehicle_numbers_'' @ stem @ ''.txt''),
               disk(''vehicle_numbers_'' @ stem @ ''.txt'' \<mapsto> write_lines ids))
          \<and> ids \<noteq> []
          \<and> map (\<lambda>l. (secondary l, primary l)) (filter retained lines) = map (\<lambda>x. (d, x)) ids
          \<and> process_lines lines (header_row, 0) = (header_row @ rows, length ids)
          \<and> convert_txt_to_csv src dst (disk(src \<mapsto> write_lines lines)) =
              (Inr (), (disk(src \<mapsto> write_lines lines))(dst \<mapsto> header_row @ rows))"
proof -
  define a where "a = digits_value start_digits"
  define b where "b = digits_value end_digits"
  define stem where "stem = upper prefix @ code @ upper series"
  define ids where "ids = map (\<lambda>n. stem @ format_04d n) [a..b]"
  define f where "f = (\<lambda>x. x @ separator @ d)"
  define g where "g = (\<lambda>x. f x @ [newline])"
  define lines where "lines = map f ids"
  define rows where "rows = concat (map (\<lambda>x. d @ '','' @ x @ [carriage_return, newline]) ids)"
  have ab: "0 \<le> a" "a \<le> b" "b \<le> 9999"
    using assms digit_quad_range [of start_digits] digit_quad_range [of end_digits]
    by (simp_all add: a_def b_def)
  have gen: "generate_vehicle_numbers prefix code series start_digits end_digits disk =
      (Inr (''vehicle_numbers_'' @ stem @ ''.txt''),
       disk(''vehicle_numbers_'' @ stem @ ''.txt'' \<mapsto> write_lines ids))"
    using generate_vehicle_numbers_ok [OF assms(1-6), of disk]
    by (simp add: series_numbers_eq number_str_def [abs_def] stem_def ids_def a_def b_def)
  have nonempty: "ids \<noteq> []" using ab by (simp add: ids_def)
  have ids: "x \<noteq> [] \<and> list_all (\<lambda>c. isalpha_char c \<or> isdigit_char c) x" if "x \<in> set ids" for x
  proof -
    from that obtain n where "x = stem @ format_04d n" "a \<le> n" "n \<le> b" by (auto simp: ids_def)
    with ab identifier_alnum [OF assms(1-3), of n] show ?thesis by (simp add: stem_def)
  qed
  have ends: "f x \<noteq> [] \<and> \<not> isspace_char (hd (f x)) \<and> \<not> isspace_char (last (f x))"
    if "x \<in> set ids" for x
  proof -
    from ids [OF that] have "isalpha_char (hd x) \<or> isdigit_char (hd x)"
      by (cases x) simp_all
    moreover from assms(7,8) have "isdigit_char (last d)" by (simp add: list_all_iff)
    ultimately show ?thesis using ids [OF that] assms(7) alnum_plain(1)
      by (auto simp: f_def separator_def)
  qed
  have plain: "strip (f x) = x @ separator @ d" if "x \<in> set ids" for x
    using strip_trailing [of "f x" "[]"] ends [OF that] by (simp add: f_def)
  have ended: "strip (g x) = x @ separator @ d" if "x \<in> set ids" for x
    using strip_trailing [of "f x" "[newline]"] ends [OF that]
    by (simp add: g_def f_def isspace_char_def newline_def ord_char_def)
  have direct:
    "filter retained (map f ids) = map f ids"
    "map (\<lambda>l. (secondary l, primary l)) (map f ids) = map (\<lambda>x. (d, x)) ids"
    "concat (map (\<lambda>l. writerow (secondary l) (primary l)) (map f ids))
       = concat (map (\<lambda>x. d @ '','' @ x @ [carriage_return, newline]) ids)"
    by (rule rows_of_lines [where f = f and ids = ids and d = d]; use ids plain assms(7,8) in blast)+
  have in_file:
    "filter retained (map g ids) = map g ids"
    "concat (map (\<lambda>l. writerow (secondary l) (primary l)) (map g ids))
       = concat (map (\<lambda>x. d @ '','' @ x @ [carriage_return, newline]) ids)"
    by (rule rows_of_lines [where f = g and ids = ids and d = d]; use ids ended assms(7,8) in blast)+
  have kept: "filter retained lines = lines"
    unfolding lines_def by (fact direct(1))
  have m: "map (\<lambda>l. (secondary l, primary l)) (filter retained lines) = map (\<lambda>x. (d, x)) ids"
    unfolding kept unfolding lines_def by (fact direct(2))
  have written: "concat (map (\<lambda>l. writerow (secondary l) (primary l)) lines) = rows"
    unfolding lines_def rows_def by (fact direct(3))
  have p: "process_lines lines (header_row, 0) = (header_row @ rows, length ids)"
    unfolding process_lines_eq kept written by (simp add: lines_def)
  have clean: "list_all (\<lambda>l. newline \<notin> set l \<and> carriage_return \<notin> set l) lines"
  proof -
    have sep: "newline \<notin> set separator \<and> carriage_return \<notin> set separator"
      by (simp add: separator_def newline_def carriage_return_def)
    have plain_text: "newline \<notin> set y \<and> carriage_return \<notin> set y"
      if "list_all (\<lambda>c. isalpha_char c \<or> isdigit_char c) y" for y
      using that alnum_plain(5,6) unfolding list_all_iff by blast
    have "list_all (\<lambda>c. isalpha_char c \<or> isdigit_char c) d"
      using assms(8) unfolding list_all_iff by blast
    from plain_text [OF this] have dd: "newline \<notin> set d \<and> carriage_return \<notin> set d" .
    have "newline \<notin> set (f x) \<and> carriage_return \<notin> set (f x)" if "x \<in> set ids" for x
      using plain_text [of x] ids [OF that] sep dd by (simp add: f_def)
    then show ?thesis unfolding lines_def list_all_iff by simp
  qed
  have rl: "readlines (write_lines lines) = map g ids"
    unfolding readlines_write_lines [OF clean] by (simp add: lines_def g_def)
  have ne: "write_lines lines \<noteq> []"
    using nonempty by (cases ids) (simp_all add: write_lines_eq lines_def)
  have kept': "filter retained (readlines (write_lines lines)) = map g ids"
    unfolding rl by (fact in_file(1))
  have written': "concat (map (\<lambda>l. writerow (secondary l) (primary l)) (map g ids)) = rows"
    unfolding rows_def by (fact in_file(2))
  have c: "convert_txt_to_csv src dst (disk(src \<mapsto> write_lines lines)) =
              (Inr (), (disk(src \<mapsto> write_lines lines))(dst \<mapsto> header_row @ rows))"
    unfolding convert_txt_to_csv_eq
    using nonempty ne by (simp add: header_row_def kept' written' del: map_map)
  show ?thesis
    unfolding Let_def a_def [symmetric] b_def [symmetric] stem_def [symmetric] ids_def [symmetric]
      f_def [symmetric] lines_def [symmetric] rows_def [symmetric]
    by (intro conjI) (fact gen nonempty m p c)+
qed

theorem generated_lines_round_trip_witness:
  "letter_pair ''AB'' \<and> digit_pair ''12'' \<and> letter_pair ''CD''
   \<and> digit_quad ''0001'' \<and> digit_quad ''0003''
   \<and> digits_value ''0001'' \<le> digits_value ''0003''
   \<and> ''555'' \<noteq> [] \<and> list_all isdigit_char ''555''
   \<and> process_lines [''AB12CD0001 - 555'', ''AB12CD0002 - 555'', ''AB12CD0003 - 555''] (header_row, 0)
       = (header_row @ ''555,AB12CD0001'' @ [carriage_return, newline]
            @ ''555,AB12CD0002'' @ [carriage_return, newline]
            @ ''555,AB12CD0003'' @ [carriage_return, newline], 3)"
proof -
  have r: "[1..3] = [1, 2, 3::int]" by (simp add: upto_rec1)
  have f: "format_04d 1 = ''0001''" "format_04d 2 = ''0002''" "format_04d 3 = ''0003''"
    by code_simp+
  have u: "upper ''AB'' = ''AB''" "upper ''CD'' = ''CD''"
    by code_simp+
  have d: "list_all isdigit_char ''555''"
    by (simp add: isdigit_char_def ord_char_def)
  have le: "digits_value ''0001'' \<le> digits_value ''0003''"
    by (simp add: values_example)
  have ne: "''555'' \<noteq> []" by simp
  note t = generated_lines_round_trip [OF shapes_example(1) shapes_example(6) shapes_example(3)
      shapes_example(7) shapes_example(8) le ne d, unfolded Let_def]
  note p = t [THEN conjunct2, THEN conjunct2, THEN conjunct2, THEN conjunct1]
  have "process_lines [''AB12CD0001 - 555'', ''AB12CD0002 - 555'', ''AB12CD0003 - 555''] (header_row, 0)
       = (header_row @ ''555,AB12CD0001'' @ [carriage_return, newline]
            @ ''555,AB12CD0002'' @ [carriage_return, newline]
            @ ''555,AB12CD0003'' @ [carriage_return, newline], 3)"
    using p by (simp add: values_example r f u separator_def del: process_lines.simps)
  then show ?thesis
    using shapes_example le d by simp
qed

end
